theory Spec2Isabelle
  imports Complex_Main "HOL-Library.Multiset"
begin

section \<open>JavaScript numbers\<close>

text \<open>
  The scoring utilities compute on JavaScript numbers, that is on doubles. A finite
  number is modelled as a real, and a number that may be non-finite has the type
  \<open>jsnum\<close>: a finite real, one of the two infinities, or NaN. The operations of this
  section deliver the exact result when it lies in the range of the doubles and follow
  the doubles where it leaves the range (overflow, underflow, division by zero); the
  rounding of the significand and the sign of zero are not modelled here, and a zero
  denominator is taken as positive zero. Rounding to 53 bits is modelled in the section
  on the weighted sum model, where a property depends on it.
\<close>

datatype jsnum = Fin real | PosInf | NegInf | NaN

text \<open>
  The exact result of an operation, delivered as a double. At or beyond the overflow
  threshold \<open>2\<^sup>1\<^sup>0\<^sup>2\<^sup>4 - 2\<^sup>9\<^sup>7\<^sup>0\<close> it rounds to an infinity
  (\<open>overflowed\<close>); a product, a quotient, a square or an exponential of magnitude at
  most \<open>2\<^sup>-\<^sup>1\<^sup>0\<^sup>7\<^sup>5\<close>, half the least positive double, rounds to zero
  (\<open>toDouble\<close>). A sum or a difference of two doubles is a multiple of the least
  positive double and never rounds to zero.
\<close>

definition overflowThreshold :: real where
  "overflowThreshold = 2 ^ 1024 - 2 ^ 970"

definition underflowThreshold :: real where
  "underflowThreshold = 1 / 2 ^ 1075"

definition overflowed :: "real \<Rightarrow> jsnum" where
  "overflowed r =
     (if r \<ge> overflowThreshold then PosInf
      else if r \<le> - overflowThreshold then NegInf else Fin r)"

definition toDouble :: "real \<Rightarrow> jsnum" where
  "toDouble r = (if \<bar>r\<bar> \<le> underflowThreshold then Fin 0 else overflowed r)"

fun isFin :: "jsnum \<Rightarrow> bool" where
  "isFin (Fin x) = True"
| "isFin _ = False"

fun js_neg :: "jsnum \<Rightarrow> jsnum" where
  "js_neg (Fin x) = Fin (- x)"
| "js_neg PosInf = NegInf"
| "js_neg NegInf = PosInf"
| "js_neg NaN = NaN"

fun js_add :: "jsnum \<Rightarrow> jsnum \<Rightarrow> jsnum" where
  "js_add (Fin x) (Fin y) = overflowed (x + y)"
| "js_add NaN _ = NaN"
| "js_add _ NaN = NaN"
| "js_add PosInf NegInf = NaN"
| "js_add NegInf PosInf = NaN"
| "js_add PosInf _ = PosInf"
| "js_add NegInf _ = NegInf"
| "js_add (Fin x) y = y"

definition js_sub :: "jsnum \<Rightarrow> jsnum \<Rightarrow> jsnum" where
  "js_sub a b = js_add a (js_neg b)"

fun js_mul :: "jsnum \<Rightarrow> jsnum \<Rightarrow> jsnum" where
  "js_mul (Fin x) (Fin y) = toDouble (x * y)"
| "js_mul NaN _ = NaN"
| "js_mul _ NaN = NaN"
| "js_mul (Fin x) PosInf = (if x = 0 then NaN else if x > 0 then PosInf else NegInf)"
| "js_mul (Fin x) NegInf = (if x = 0 then NaN else if x > 0 then NegInf else PosInf)"
| "js_mul PosInf (Fin y) = (if y = 0 then NaN else if y > 0 then PosInf else NegInf)"
| "js_mul NegInf (Fin y) = (if y = 0 then NaN else if y > 0 then NegInf else PosInf)"
| "js_mul PosInf PosInf = PosInf"
| "js_mul NegInf NegInf = PosInf"
| "js_mul PosInf NegInf = NegInf"
| "js_mul NegInf PosInf = NegInf"

fun js_div :: "jsnum \<Rightarrow> jsnum \<Rightarrow> jsnum" where
  "js_div (Fin x) (Fin y) =
     (if y \<noteq> 0 then toDouble (x / y)
      else if x = 0 then NaN else if x > 0 then PosInf else NegInf)"
| "js_div NaN _ = NaN"
| "js_div _ NaN = NaN"
| "js_div (Fin x) _ = Fin 0"
| "js_div PosInf (Fin y) = (if y \<ge> 0 then PosInf else NegInf)"
| "js_div NegInf (Fin y) = (if y \<ge> 0 then NegInf else PosInf)"
| "js_div _ _ = NaN"

text \<open>\<open>a > b\<close> and \<open>a <= b\<close> on numbers: false as soon as one side is NaN.\<close>

fun js_gt :: "jsnum \<Rightarrow> jsnum \<Rightarrow> bool" where
  "js_gt (Fin x) (Fin y) = (x > y)"
| "js_gt NaN _ = False"
| "js_gt _ NaN = False"
| "js_gt PosInf PosInf = False"
| "js_gt PosInf _ = True"
| "js_gt _ PosInf = False"
| "js_gt NegInf _ = False"
| "js_gt (Fin x) NegInf = True"

fun js_le :: "jsnum \<Rightarrow> jsnum \<Rightarrow> bool" where
  "js_le (Fin x) (Fin y) = (x \<le> y)"
| "js_le NaN _ = False"
| "js_le _ NaN = False"
| "js_le NegInf _ = True"
| "js_le _ PosInf = True"
| "js_le _ _ = False"

text \<open>\<open>a === b\<close> on numbers: NaN equals nothing.\<close>

fun js_eq :: "jsnum \<Rightarrow> jsnum \<Rightarrow> bool" where
  "js_eq NaN _ = False"
| "js_eq _ NaN = False"
| "js_eq a b = (a = b)"

text \<open>\<open>Math.max(a, b)\<close>: NaN as soon as one argument is NaN.\<close>

fun js_max :: "jsnum \<Rightarrow> jsnum \<Rightarrow> jsnum" where
  "js_max NaN _ = NaN"
| "js_max _ NaN = NaN"
| "js_max a b = (if js_gt b a then b else a)"

text \<open>\<open>Math.abs(v)\<close>, \<open>Math.pow(v, 2)\<close> and \<open>Math.exp(v)\<close>.\<close>

fun js_abs :: "jsnum \<Rightarrow> jsnum" where
  "js_abs (Fin x) = Fin \<bar>x\<bar>"
| "js_abs NaN = NaN"
| "js_abs _ = PosInf"

fun js_pow2 :: "jsnum \<Rightarrow> jsnum" where
  "js_pow2 (Fin x) = toDouble (x\<^sup>2)"
| "js_pow2 NaN = NaN"
| "js_pow2 _ = PosInf"

fun js_exp :: "jsnum \<Rightarrow> jsnum" where
  "js_exp (Fin x) = toDouble (exp x)"
| "js_exp PosInf = PosInf"
| "js_exp NegInf = Fin 0"
| "js_exp NaN = NaN"

subsection \<open>Correctly rounded arithmetic\<close>

text \<open>
  The operations above keep the exact value of a finite result and only decide whether
  it leaves the range of a double. The weighted sum is also modelled with every
  operation rounded as IEEE 754 binary64 does it (to nearest, ties to even), since two
  runs that agree on exact numbers can differ in their rounding errors. A real \<open>r\<close>
  with \<open>2\<^sup>e \<le> |r| < 2\<^sup>e\<^sup>+\<^sup>1\<close> is rounded to a multiple of the spacing \<open>2\<^sup>e\<^sup>-\<^sup>5\<^sup>2\<close> of the
  doubles around it; below \<open>2\<^sup>-\<^sup>1\<^sup>0\<^sup>2\<^sup>2\<close> the spacing stays \<open>2\<^sup>-\<^sup>1\<^sup>0\<^sup>7\<^sup>4\<close> (subnormal numbers,
  and 0 below half of it); a rounded value of \<open>2\<^sup>1\<^sup>0\<^sup>2\<^sup>4\<close> or more is an infinity.
\<close>

definition exponentOf :: "real \<Rightarrow> int" where
  "exponentOf r = max \<lfloor>log 2 \<bar>r\<bar>\<rfloor> (- 1022)"

definition quantum :: "real \<Rightarrow> real" where
  "quantum r = 2 powr (real_of_int (exponentOf r) - 52)"

definition roundEven :: "real \<Rightarrow> int" where
  "roundEven x =
     (let f = \<lfloor>x\<rfloor>; d = x - real_of_int f
      in if d < 1 / 2 then f else if d > 1 / 2 then f + 1
         else if even f then f else f + 1)"

definition overflowLimit :: real where
  "overflowLimit = 2 ^ 1024"

definition roundDouble :: "real \<Rightarrow> jsnum" where
  "roundDouble r =
     (if r = 0 then Fin 0
      else
        let v = real_of_int (roundEven (r / quantum r)) * quantum r
        in if v \<ge> overflowLimit then PosInf
           else if v \<le> - overflowLimit then NegInf else Fin v)"

text \<open>
  \<open>a + b\<close>, \<open>a * b\<close> and \<open>a / b\<close> on doubles: the exact result, rounded; on an infinity,
  NaN or a zero divisor as above.
\<close>

fun dbl_add :: "jsnum \<Rightarrow> jsnum \<Rightarrow> jsnum" where
  "dbl_add (Fin x) (Fin y) = roundDouble (x + y)"
| "dbl_add a b = js_add a b"

fun dbl_mul :: "jsnum \<Rightarrow> jsnum \<Rightarrow> jsnum" where
  "dbl_mul (Fin x) (Fin y) = roundDouble (x * y)"
| "dbl_mul a b = js_mul a b"

fun dbl_div :: "jsnum \<Rightarrow> jsnum \<Rightarrow> jsnum" where
  "dbl_div (Fin x) (Fin y) = (if y \<noteq> 0 then roundDouble (x / y) else js_div (Fin x) (Fin y))"
| "dbl_div a b = js_div a b"

section \<open>Membership functions\<close>

text \<open>
  \<open>triangularMF\<close>, \<open>trapezoidalMF\<close> and \<open>gaussianMF\<close>, branch by branch as in
  the source. None of them contains a \<open>throw\<close>, and arithmetic on numbers never throws, so
  a call always returns a number. The functions with the suffix \<open>n\<close> take any numbers,
  non-finite ones included; those without are the same functions on finite arguments.
\<close>

definition triangularMFn :: "jsnum \<Rightarrow> jsnum \<Rightarrow> jsnum \<Rightarrow> jsnum \<Rightarrow> jsnum" where
  "triangularMFn x a b c =
     (if js_le x a then Fin 0
      else if js_gt x a \<and> js_le x b then js_div (js_sub x a) (js_sub b a)
      else if js_gt x b \<and> js_le x c then js_div (js_sub c x) (js_sub c b)
      else Fin 0)"


definition gaussianMFn :: "jsnum \<Rightarrow> jsnum \<Rightarrow> jsnum \<Rightarrow> jsnum" where
  "gaussianMFn x mean sigma =
     js_exp (js_mul (Fin (- 0.5)) (js_pow2 (js_div (js_sub x mean) sigma)))"

definition triangularMF :: "real \<Rightarrow> real \<Rightarrow> real \<Rightarrow> real \<Rightarrow> jsnum" where
  "triangularMF x a b c = triangularMFn (Fin x) (Fin a) (Fin b) (Fin c)"


definition gaussianMF :: "real \<Rightarrow> real \<Rightarrow> real \<Rightarrow> jsnum" where
  "gaussianMF x mean sigma = gaussianMFn (Fin x) (Fin mean) (Fin sigma)"

section \<open>Values\<close>

text \<open>
  A JavaScript value. An array carries the address of the array object next to its
  elements and an object only its address: \<open>===\<close> compares arrays and objects by
  identity. \<open>Num\<close> holds any number, \<open>Number\<close> a finite one.
\<close>

datatype jsval =
    Undefined | Null | Num jsnum | Text string | Flag bool
  | Array nat "jsval list" | Object nat

abbreviation Number :: "real \<Rightarrow> jsval" where
  "Number r \<equiv> Num (Fin r)"

fun strict_eq :: "jsval \<Rightarrow> jsval \<Rightarrow> bool" where
  "strict_eq Undefined Undefined = True"
| "strict_eq Null Null = True"
| "strict_eq (Num x) (Num y) = js_eq x y"
| "strict_eq (Text s) (Text t) = (s = t)"
| "strict_eq (Flag p) (Flag q) = (p = q)"
| "strict_eq (Array a xs) (Array b ys) = (a = b)"
| "strict_eq (Object a) (Object b) = (a = b)"
| "strict_eq _ _ = False"

text \<open>\<open>v || d\<close> on a numeric property that may be absent: 0 and undefined are falsy.\<close>

definition orElse :: "real option \<Rightarrow> real \<Rightarrow> real" where
  "orElse v d = (case v of None \<Rightarrow> d | Some x \<Rightarrow> if x = 0 then d else x)"

section \<open>Weight consensus\<close>

definition calculateMedian :: "real list \<Rightarrow> jsnum" where
  "calculateMedian arr =
     (let sorted = sort arr;
          mid = length sorted div 2
      in if length sorted mod 2 = 0
         then (if length sorted = 0 then NaN
               else Fin ((sorted ! (mid - 1) + sorted ! mid) / 2))
         else Fin (sorted ! mid))"

text \<open>
  \<open>removeFuzzyOutliers\<close>. The early return leaves more than two values, so the reads
  of \<open>sorted\<close> at \<open>mid - 1\<close> and \<open>mid\<close> are in range.
\<close>

definition removeFuzzyOutliers :: "real list \<Rightarrow> real \<Rightarrow> real list" where
  "removeFuzzyOutliers values fuzzyThreshold =
     (if length values \<le> 2 then values
      else
        let sorted = sort values;
            mid = length sorted div 2;
            medianValue = (if length sorted mod 2 = 0
                           then (sorted ! (mid - 1) + sorted ! mid) / 2
                           else sorted ! mid);
            deviations = map (\<lambda>v. \<bar>v - medianValue\<bar>) sorted;
            mad = calculateMedian deviations
        in filter (\<lambda>v.
             let deviation = \<bar>v - medianValue\<bar>
             in if js_eq mad (Fin 0) then v = medianValue
                else
                  let normalMembership =
                        js_max (Fin 0)
                          (js_sub (Fin 1)
                             (js_div (Fin deviation)
                                (js_mul (js_mul (Fin fuzzyThreshold) mad) (Fin 1.4826))))
                  in js_gt normalMembership (Fin 0.5)) values)"

text \<open>
  A weight proposal is an object from criterion names to weights, kept as the list of its
  entries in insertion order (the enumeration of integer-like keys ahead of the others
  is not modelled; it changes the order of the sums only). \<open>allCriteria\<close> is the set
  of names in order of first appearance; \<open>weightsByAttribute\<close> gathers per criterion
  the proposals that are truthy (present and not 0).
\<close>

definition allCriteria :: "(string \<times> real) list list \<Rightarrow> string list" where
  "allCriteria initialWeights =
     fold (\<lambda>hrWeights acc.
             fold (\<lambda>key acc'. if key \<in> set acc' then acc' else acc' @ [key])
                  (map fst hrWeights) acc)
          initialWeights []"

definition weightsByAttribute :: "(string \<times> real) list list \<Rightarrow> (string \<times> real list) list" where
  "weightsByAttribute initialWeights =
     map (\<lambda>criterion.
            (criterion,
             concat (map (\<lambda>hrWeights.
                            case map_of hrWeights criterion of
                              None \<Rightarrow> []
                            | Some w \<Rightarrow> if w \<noteq> 0 then [w] else [])
                         initialWeights)))
         (allCriteria initialWeights)"

text \<open>
  The aggregated weight of each criterion, before normalisation: the mean of the values
  that survive the outlier filter. With no survivor the quotient is \<open>0 / 0\<close>.
\<close>

definition aggregatedWeights :: "(string \<times> real) list list \<Rightarrow> (string \<times> jsnum) list" where
  "aggregatedWeights initialWeights =
     map (\<lambda>(criterion, weights).
            let filteredWeights = removeFuzzyOutliers weights 0.2
            in (criterion,
                js_div (Fin (fold (\<lambda>w sum. sum + w) filteredWeights 0))
                       (Fin (real (length filteredWeights)))))
         (weightsByAttribute initialWeights)"

text \<open>
  The local \<open>totalWeight\<close> of \<open>applyDelphiTechnique\<close>: the \<open>reduce\<close> over the
  values of \<open>finalWeights\<close>.
\<close>

definition weightTotal :: "(string \<times> jsnum) list \<Rightarrow> jsnum" where
  "weightTotal finalWeights =
     fold (\<lambda>weight sum. js_add sum weight) (map snd finalWeights) (Fin 0)"

definition applyDelphiTechnique :: "(string \<times> real) list list \<Rightarrow> (string \<times> jsnum) list" where
  "applyDelphiTechnique initialWeights =
     (let finalWeights = aggregatedWeights initialWeights
      in if js_gt (weightTotal finalWeights) (Fin 0)
         then map (\<lambda>(key, w). (key, js_div w (weightTotal finalWeights))) finalWeights
         else finalWeights)"

section \<open>Candidates\<close>

text \<open>
  A candidate object with the properties the utilities read or write; a property that
  may be missing is an option. Any other property is carried by the record's extension.
\<close>

record candidate =
  ident :: nat
  attributes :: "string \<Rightarrow> jsval option"
  finalScore :: "real option"
  confidence :: "real option"
  confidenceScore :: "real option"
  percentile :: "real option"
  rank :: "nat option"

section \<open>Hard criteria filter\<close>

text \<open>\<open>typeof v === 'number'\<close>, with the number.\<close>

fun numberOf :: "jsval \<Rightarrow> jsnum option" where
  "numberOf (Num v) = Some v"
| "numberOf _ = None"

text \<open>
  The numeric branch: \<open>fuzzyThreshold = threshold * (1 - thresholdTolerance)\<close> and the test
  \<open>candidateValue < fuzzyThreshold\<close>, on two finite numbers and on numbers of which one
  is not finite.
\<close>

fun belowFuzzyThreshold :: "jsnum \<Rightarrow> jsnum \<Rightarrow> real \<Rightarrow> bool" where
  "belowFuzzyThreshold (Fin v) (Fin t) thresholdTolerance =
     (let fuzzyThreshold = t * (1 - thresholdTolerance) in v < fuzzyThreshold)"
| "belowFuzzyThreshold v t thresholdTolerance =
     (let fuzzyThreshold = js_mul t (js_sub (Fin 1) (Fin thresholdTolerance))
      in js_gt fuzzyThreshold v)"

text \<open>
  The callback of the filter: the loop over the entries of \<open>criteria\<close>, each branch
  with its early \<open>return false\<close>. The comparison \<open>candidateValue < threshold\<close> of the last
  branch, on operands that are not both numbers, follows the coercion rules of the
  language and is the parameter \<open>jsLess\<close>.
\<close>

fun passesCriteria ::
  "(jsval \<Rightarrow> jsval \<Rightarrow> bool) \<Rightarrow> (string \<Rightarrow> jsval option) \<Rightarrow> (string \<times> jsval) list \<Rightarrow> real \<Rightarrow> bool"
where
  "passesCriteria jsLess attrs [] thresholdTolerance = True"
| "passesCriteria jsLess attrs ((key, threshold) # rest) thresholdTolerance =
     (case attrs key of
        None \<Rightarrow> False
      | Some candidateValue \<Rightarrow>
          if candidateValue = Undefined then False
          else
            (case (numberOf candidateValue, numberOf threshold) of
               (Some v, Some t) \<Rightarrow>
                 (if belowFuzzyThreshold v t thresholdTolerance then False
                  else passesCriteria jsLess attrs rest thresholdTolerance)
             | _ \<Rightarrow>
                 (if jsLess candidateValue threshold then False
                  else passesCriteria jsLess attrs rest thresholdTolerance)))"

definition applyHardCriteriaFilter ::
  "(jsval \<Rightarrow> jsval \<Rightarrow> bool) \<Rightarrow> 'a candidate_scheme list \<Rightarrow> (string \<times> jsval) list \<Rightarrow> real
     \<Rightarrow> 'a candidate_scheme list"
where
  "applyHardCriteriaFilter jsLess candidates criteria thresholdTolerance =
     filter (\<lambda>c. passesCriteria jsLess (attributes c) criteria thresholdTolerance) candidates"

section \<open>Similarity metrics\<close>

text \<open>
  Strings are lists of 8-bit characters; \<open>toLowerCase\<close> and \<open>trim\<close> are those of the
  ASCII range (letters A to Z; tab, line feed, vertical tab, form feed, carriage return
  and space).
\<close>

definition toLowerChar :: "char \<Rightarrow> char" where
  "toLowerChar c =
     (let n = (of_char c :: nat) in if 65 \<le> n \<and> n \<le> 90 then char_of (n + 32) else c)"

definition toLowerCase :: "string \<Rightarrow> string" where
  "toLowerCase s = map toLowerChar s"

definition isWhiteSpace :: "char \<Rightarrow> bool" where
  "isWhiteSpace c = ((of_char c :: nat) \<in> {9, 10, 11, 12, 13, 32})"

definition trim :: "string \<Rightarrow> string" where
  "trim s = rev (dropWhile isWhiteSpace (rev (dropWhile isWhiteSpace s)))"

text \<open>
  The Levenshtein matrix, row by row. \<open>fillRow c s2 prev left\<close> computes the cells
  \<open>matrix[i][j]\<close> of one row from column \<open>j\<close> on, where \<open>c = s1[i - 1]\<close>, the list
  \<open>prev\<close> holds \<open>matrix[i - 1][j - 1]\<close> and the cells to its right, \<open>left\<close> is
  \<open>matrix[i][j - 1]\<close> and \<open>s2\<close> is the rest of the second string from \<open>s2[j - 1]\<close> on.
\<close>

fun fillRow :: "char \<Rightarrow> string \<Rightarrow> nat list \<Rightarrow> nat \<Rightarrow> nat list" where
  "fillRow c (d # ds) (diag # up # prev) left =
     (let cost = (if c = d then 0 else 1);
          cell = min (min (up + 1) (left + 1)) (diag + cost)
      in cell # fillRow c ds (up # prev) cell)"
| "fillRow c _ _ left = []"

fun fillRows :: "nat \<Rightarrow> string \<Rightarrow> string \<Rightarrow> nat list \<Rightarrow> nat list list" where
  "fillRows i [] s2 prev = []"
| "fillRows i (c # cs) s2 prev =
     (let row = i # fillRow c s2 prev i in row # fillRows (Suc i) cs s2 row)"

definition levenshteinMatrix :: "string \<Rightarrow> string \<Rightarrow> nat list list" where
  "levenshteinMatrix s1 s2 =
     (let row0 = [0..<Suc (length s2)] in row0 # fillRows 1 s1 s2 row0)"

definition calculateStringSimilarity :: "string \<Rightarrow> string \<Rightarrow> real" where
  "calculateStringSimilarity str1 str2 =
     (let s1 = trim (toLowerCase str1);
          s2 = trim (toLowerCase str2)
      in if length s1 = 0 \<and> length s2 = 0 then 1
         else if length s1 = 0 \<or> length s2 = 0 then 0
         else if s1 = s2 then 1
         else
           let matrix = levenshteinMatrix s1 s2;
               maxLength = max (length s1) (length s2)
           in 1 - real (matrix ! length s1 ! length s2) / real maxLength)"

record options =
  caseSensitive :: bool
  partial :: bool
  threshold :: real

definition defaultOptions :: options where
  "defaultOptions = \<lparr>caseSensitive = False, partial = True, threshold = 0.7\<rparr>"

text \<open>One cell of the similarity matrix: the body of the inner loop.\<close>

fun itemSimilarity :: "bool \<Rightarrow> jsval \<Rightarrow> jsval \<Rightarrow> jsnum" where
  "itemSimilarity cs (Text s) (Text t) =
     Fin (calculateStringSimilarity (if cs then s else toLowerCase s)
                                    (if cs then t else toLowerCase t))"
| "itemSimilarity cs (Num a) (Num b) =
     (let maxDiff = js_max (js_abs a) (js_abs b);
          diff = js_abs (js_sub a b)
      in if js_eq maxDiff (Fin 0) then Fin 1
         else js_max (Fin 0) (js_sub (Fin 1) (js_div diff maxDiff)))"
| "itemSimilarity cs u v = Fin (if strict_eq u v then 1 else 0)"

definition similarityMatrix :: "bool \<Rightarrow> jsval list \<Rightarrow> jsval list \<Rightarrow> jsnum list list" where
  "similarityMatrix cs source target =
     map (\<lambda>s. map (\<lambda>t. itemSimilarity cs s t) target) source"

text \<open>
  The search for the best match of one row: \<open>findBest row j (bestMatchIdx, bestMatchScore)\<close>
  scans the row from column \<open>j\<close> on; \<open>None\<close> is the index \<open>-1\<close>.
\<close>

fun findBest :: "jsnum list \<Rightarrow> nat \<Rightarrow> nat option \<times> jsnum \<Rightarrow> nat option \<times> jsnum" where
  "findBest [] j best = best"
| "findBest (x # xs) j (bestMatchIdx, bestMatchScore) =
     (if js_gt x bestMatchScore then findBest xs (Suc j) (Some j, x)
      else findBest xs (Suc j) (bestMatchIdx, bestMatchScore))"

text \<open>\<open>splice(bestMatchIdx, 1)\<close> on every row that is long enough.\<close>

definition removeMatched :: "nat \<Rightarrow> jsnum list list \<Rightarrow> jsnum list list" where
  "removeMatched bestMatchIdx rows =
     map (\<lambda>row. if length row > bestMatchIdx
                 then take bestMatchIdx row @ drop (Suc bestMatchIdx) row else row) rows"

text \<open>
  One round of the greedy loop on the state \<open>(primaryArray, totalSimilarity, matchCount)\<close>.
  The number of rows never changes, so the read at \<open>i\<close> is in range.
\<close>

definition greedyStep ::
  "real \<Rightarrow> nat \<Rightarrow> jsnum list list \<times> jsnum \<times> nat \<Rightarrow> jsnum list list \<times> jsnum \<times> nat" where
  "greedyStep thr i st =
     (case st of (primaryArray, totalSimilarity, matchCount) \<Rightarrow>
        if length (primaryArray ! i) = 0 then st
        else
          (case findBest (primaryArray ! i) 0 (None, js_sub (Fin thr) (Fin 0.01)) of
             (None, _) \<Rightarrow> st
           | (Some bestMatchIdx, bestMatchScore) \<Rightarrow>
               (removeMatched bestMatchIdx primaryArray,
                js_add totalSimilarity bestMatchScore, Suc matchCount)))"

fun calculateArraySimilarity :: "jsval \<Rightarrow> jsval \<Rightarrow> options \<Rightarrow> jsnum" where
  "calculateArraySimilarity (Array sa source) (Array ta target) opts =
     (if length source = 0 \<and> length target = 0 then Fin 1
      else if length source = 0 \<or> length target = 0 then Fin 0
      else
        let matrix = similarityMatrix (caseSensitive opts) source target;
            processLargerFirst = (length source > length target);
            primaryArray =
              (if processLargerFirst then matrix
               else map (\<lambda>i. map (\<lambda>j. matrix ! i ! j) [0..<length target])
                        [0..<length matrix])
        in case fold (greedyStep (threshold opts)) [0..<length primaryArray]
                     (primaryArray, Fin 0, 0) of
             (_, totalSimilarity, matchCount) \<Rightarrow>
               let maxPossibleMatches = min (length source) (length target)
               in if maxPossibleMatches = 0 then Fin 0
                  else
                    let matchQuality =
                          (if matchCount > 0
                           then js_div totalSimilarity (Fin (real matchCount)) else Fin 0);
                        coverage = js_div (Fin (real matchCount)) (Fin (real maxPossibleMatches))
                    in js_add (js_mul matchQuality (Fin 0.4)) (js_mul coverage (Fin 0.6)))"
| "calculateArraySimilarity _ _ opts = Fin 0"

section \<open>Fuzzy scorer\<close>



section \<open>Weighted sum model\<close>

record scoreResult =
  score :: real
  confidence :: real

text \<open>
  One round of the loop over \<open>Object.entries(weights)\<close> on the accumulators
  \<open>(score, totalWeight, totalConfidence)\<close>, here \<open>scoreSum\<close> for the first and \<open>conf\<close> for
  the local \<open>confidence\<close>, which are field names of the result record.
\<close>

definition wsmStep ::
  "(string \<Rightarrow> real option) \<Rightarrow> (string \<Rightarrow> real option) \<Rightarrow> string \<times> real
     \<Rightarrow> real \<times> real \<times> real \<Rightarrow> real \<times> real \<times> real" where
  "wsmStep attrs confidenceScores entry acc =
     (case entry of (key, weight) \<Rightarrow>
      case acc of (scoreSum, totalWeight, totalConfidence) \<Rightarrow>
        (case attrs key of
           None \<Rightarrow> acc
         | Some attributeValue \<Rightarrow>
             let conf = orElse (confidenceScores key) 1.0;
                 adjustedWeight = weight * conf
             in (scoreSum + attributeValue * adjustedWeight,
                 totalWeight + adjustedWeight,
                 totalConfidence + conf)))"

definition applyWSM ::
  "(string \<Rightarrow> real option) \<Rightarrow> (string \<times> real) list \<Rightarrow> (string \<Rightarrow> real option) \<Rightarrow> scoreResult"
where
  "applyWSM attrs weights confidenceScores =
     (case fold (wsmStep attrs confidenceScores) weights (0, 0, 0) of
        (scoreSum, totalWeight, totalConfidence) \<Rightarrow>
          let weightedScore = (if totalWeight > 0 then scoreSum / totalWeight else 0);
              averageConfidence =
                (if length weights > 0 then totalConfidence / real (length weights) else 1.0)
          in \<lparr>score = weightedScore, confidence = averageConfidence\<rparr>)"

text \<open>
  The same function with every \<open>*\<close>, \<open>+=\<close> and \<open>/\<close> rounded to a double: the accumulators
  are doubles, and so is the score.
\<close>

record scoreResultD =
  scoreD :: jsnum
  confidenceD :: jsnum

definition wsmStepD ::
  "(string \<Rightarrow> real option) \<Rightarrow> (string \<Rightarrow> real option) \<Rightarrow> string \<times> real
     \<Rightarrow> jsnum \<times> jsnum \<times> jsnum \<Rightarrow> jsnum \<times> jsnum \<times> jsnum" where
  "wsmStepD attrs confidenceScores entry acc =
     (case entry of (key, weight) \<Rightarrow>
      case acc of (scoreSum, totalWeight, totalConfidence) \<Rightarrow>
        (case attrs key of
           None \<Rightarrow> acc
         | Some attributeValue \<Rightarrow>
             let conf = orElse (confidenceScores key) 1.0;
                 adjustedWeight = dbl_mul (Fin weight) (Fin conf)
             in (dbl_add scoreSum (dbl_mul (Fin attributeValue) adjustedWeight),
                 dbl_add totalWeight adjustedWeight,
                 dbl_add totalConfidence (Fin conf))))"

definition applyWSMD ::
  "(string \<Rightarrow> real option) \<Rightarrow> (string \<times> real) list \<Rightarrow> (string \<Rightarrow> real option) \<Rightarrow> scoreResultD"
where
  "applyWSMD attrs weights confidenceScores =
     (case fold (wsmStepD attrs confidenceScores) weights (Fin 0, Fin 0, Fin 0) of
        (scoreSum, totalWeight, totalConfidence) \<Rightarrow>
          let weightedScore =
                (if js_gt totalWeight (Fin 0) then dbl_div scoreSum totalWeight else Fin 0);
              averageConfidence =
                (if length weights > 0
                 then dbl_div totalConfidence (Fin (real (length weights))) else Fin 1.0)
          in \<lparr>scoreD = weightedScore, confidenceD = averageConfidence\<rparr>)"

section \<open>Ranker\<close>

text \<open>
  \<open>rankCandidates\<close> copies, sorts in place and then writes to the copies, so it is
  modelled on a store: candidate objects and arrays of candidates live at addresses, an
  array holds the addresses of its elements, and the addresses below \<open>nobjs\<close> and
  \<open>narrs\<close> are the allocated ones.
\<close>

record 'a store =
  objs :: "nat \<Rightarrow> 'a candidate_scheme"
  nobjs :: nat
  arrs :: "nat \<Rightarrow> nat list"
  narrs :: nat

definition allocObj :: "'a store \<Rightarrow> 'a candidate_scheme \<Rightarrow> 'a store \<times> nat" where
  "allocObj s obj = (s\<lparr>objs := (objs s)(nobjs s := obj), nobjs := Suc (nobjs s)\<rparr>, nobjs s)"

definition allocArr :: "'a store \<Rightarrow> nat list \<Rightarrow> 'a store \<times> nat" where
  "allocArr s xs = (s\<lparr>arrs := (arrs s)(narrs s := xs), narrs := Suc (narrs s)\<rparr>, narrs s)"

text \<open>The object literal of the \<open>map\<close> callback: the spread, then the two properties.\<close>

definition copyCandidate :: "'a candidate_scheme \<Rightarrow> 'a candidate_scheme" where
  "copyCandidate c =
     c\<lparr>finalScore := Some (orElse (finalScore c) 0),
       confidenceScore := Some (orElse (candidate.confidence c) 1.0)\<rparr>"

fun mapCopy :: "'a store \<Rightarrow> nat list \<Rightarrow> 'a store \<times> nat list" where
  "mapCopy s [] = (s, [])"
| "mapCopy s (c # cs) =
     (case allocObj s (copyCandidate (objs s c)) of
        (s1, a) \<Rightarrow> (case mapCopy s1 cs of (s2, as) \<Rightarrow> (s2, a # as)))"

text \<open>A numeric property read into arithmetic: a missing one is NaN.\<close>

definition toNumber :: "real option \<Rightarrow> jsnum" where
  "toNumber v = (case v of None \<Rightarrow> NaN | Some x \<Rightarrow> Fin x)"

text \<open>The comparator handed to \<open>sort\<close>.\<close>

definition compareCandidates :: "'a candidate_scheme \<Rightarrow> 'a candidate_scheme \<Rightarrow> jsnum" where
  "compareCandidates a b =
     (if js_gt (Fin 0.05) (js_abs (js_sub (toNumber (finalScore b)) (toNumber (finalScore a))))
      then js_sub (toNumber (confidenceScore b)) (toNumber (confidenceScore a))
      else js_sub (toNumber (finalScore b)) (toNumber (finalScore a)))"

text \<open>
  \<open>Array.prototype.sort\<close> with a comparator is a stable sort: \<open>x\<close> goes behind \<open>y\<close>
  when the comparator's result on \<open>(x, y)\<close> is positive, and a NaN result counts as 0.
  It is modelled by insertion from the right. (For a comparator that is not a consistent
  ordering the language leaves the order to the implementation; the model fixes one.)
\<close>

fun insertBy :: "('a \<Rightarrow> 'a \<Rightarrow> jsnum) \<Rightarrow> 'a \<Rightarrow> 'a list \<Rightarrow> 'a list" where
  "insertBy cmp x [] = [x]"
| "insertBy cmp x (y # ys) =
     (if js_gt (cmp x y) (Fin 0) then y # insertBy cmp x ys else x # y # ys)"

definition sortBy :: "('a \<Rightarrow> 'a \<Rightarrow> jsnum) \<Rightarrow> 'a list \<Rightarrow> 'a list" where
  "sortBy cmp xs = foldr (insertBy cmp) xs []"

text \<open>
  The \<open>forEach\<close> that writes \<open>percentile\<close> and \<open>rank\<close>: \<open>annotate s as index n\<close>
  runs the callback on the remaining elements \<open>as\<close>, from \<open>index\<close> on, of an array of
  length \<open>n\<close>.
\<close>

fun annotate :: "'a store \<Rightarrow> nat list \<Rightarrow> nat \<Rightarrow> nat \<Rightarrow> 'a store" where
  "annotate s [] index n = s"
| "annotate s (a # as) index n =
     annotate
       (s\<lparr>objs := (objs s)(a := (objs s a)
            \<lparr>percentile := Some (100 * (1 - real index / real n)),
             rank := Some (index + 1)\<rparr>)\<rparr>)
       as (Suc index) n"

definition rankCandidates :: "'a store \<Rightarrow> nat \<Rightarrow> 'a store \<times> nat" where
  "rankCandidates s candidates =
     (case mapCopy s (arrs s candidates) of
        (s1, copies) \<Rightarrow>
          (case allocArr s1 copies of
             (s2, rankedCandidates) \<Rightarrow>
               let s3 = s2\<lparr>arrs := (arrs s2)(rankedCandidates :=
                             sortBy (\<lambda>a b. compareCandidates (objs s2 a) (objs s2 b))
                                    (arrs s2 rankedCandidates))\<rparr>;
                   s4 = annotate s3 (arrs s3 rankedCandidates) 0
                                 (length (arrs s3 rankedCandidates))
               in (s4, rankedCandidates)))"

text \<open>The array that \<open>rankCandidates\<close> returns, as the list of its objects.\<close>

definition rankedList :: "'a store \<Rightarrow> nat \<Rightarrow> 'a candidate_scheme list" where
  "rankedList s candidates =
     (case rankCandidates s candidates of (s', r) \<Rightarrow> map (objs s') (arrs s' r))"

text \<open>
  What a ranked entry carries over from the candidate it copies, \<open>carried\<close>: the
  properties the ranker never writes. \<open>unranked\<close> is an entry without the two
  properties written by the \<open>forEach\<close>.
\<close>

definition carried ::
  "'a candidate_scheme \<Rightarrow> nat \<times> (string \<Rightarrow> jsval option) \<times> real option \<times> 'a" where
  "carried c = (ident c, attributes c, candidate.confidence c, candidate.more c)"

definition unranked :: "'a candidate_scheme \<Rightarrow> 'a candidate_scheme" where
  "unranked c = c\<lparr>percentile := None, rank := None\<rparr>"

section \<open>Statements of the specification\<close>

text \<open>An array element that is not NaN and not an infinity.\<close>

fun finiteElement :: "jsval \<Rightarrow> bool" where
  "finiteElement (Num v) = isFin v"
| "finiteElement _ = True"

text \<open>
  Two shapes of numbers used in the bounds: NaN or at least 0, and NaN or at most 1.
\<close>

definition nonneg :: "jsnum \<Rightarrow> bool" where
  "nonneg v = (v = NaN \<or> v = PosInf \<or> (\<exists>d\<ge>0. v = Fin d))"

definition atMostOne :: "jsnum \<Rightarrow> bool" where
  "atMostOne v = (v = NaN \<or> v = NegInf \<or> (\<exists>d\<le>1. v = Fin d))"


text \<open>
  The confidence of a criterion as the specification words it (the supplied value, 1.0
  when none is supplied) and its mean over the declared weight keys.
\<close>

definition declaredConfidence :: "(string \<Rightarrow> real option) \<Rightarrow> string \<Rightarrow> real" where
  "declaredConfidence confidenceScores key =
     (case confidenceScores key of None \<Rightarrow> 1.0 | Some c \<Rightarrow> c)"

definition meanDeclaredConfidence :: "(string \<times> real) list \<Rightarrow> (string \<Rightarrow> real option) \<Rightarrow> real" where
  "meanDeclaredConfidence weights confidenceScores =
     (\<Sum>(key, w)\<leftarrow>weights. declaredConfidence confidenceScores key) / real (length weights)"

text \<open>The sum of the confidences of the declared keys whose attribute is present.\<close>

definition matchedConfidenceSum ::
  "(string \<Rightarrow> real option) \<Rightarrow> (string \<times> real) list \<Rightarrow> (string \<Rightarrow> real option) \<Rightarrow> real" where
  "matchedConfidenceSum attrs weights confidenceScores =
     (\<Sum>(key, w)\<leftarrow>weights.
        if attrs key = None then 0 else declaredConfidence confidenceScores key)"

text \<open>A weight object with every weight multiplied by \<open>k\<close>.\<close>

definition scaleWeights :: "real \<Rightarrow> (string \<times> real) list \<Rightarrow> (string \<times> real) list" where
  "scaleWeights k weights = map (\<lambda>(key, w). (key, k * w)) weights"

text \<open>
  A value that scales without a change of its rounding error: it is 0, or it and its
  \<open>k\<close>-fold are both at least \<open>2\<^sup>-\<^sup>1\<^sup>0\<^sup>2\<^sup>2\<close> in magnitude (not subnormal) and both round to a
  finite double.
\<close>

definition scalable :: "real \<Rightarrow> real \<Rightarrow> bool" where
  "scalable k r =
     (r = 0 \<or>
      (2 powr (- 1022) \<le> \<bar>r\<bar> \<and> 2 powr (- 1022) \<le> \<bar>k * r\<bar> \<and>
       isFin (roundDouble r) \<and> isFin (roundDouble (k * r))))"

text \<open>
  A run of the weighted sum all of whose intermediate values are scalable: for each
  declared key with an attribute, the adjusted weight, its product with the attribute
  and the two new partial sums, before rounding. \<open>s\<close> and \<open>t\<close> are the score and the
  total weight accumulated so far.
\<close>

fun wsmScalable ::
  "real \<Rightarrow> (string \<Rightarrow> real option) \<Rightarrow> (string \<Rightarrow> real option) \<Rightarrow> (string \<times> real) list
     \<Rightarrow> real \<Rightarrow> real \<Rightarrow> bool" where
  "wsmScalable k attrs cs [] s t = True"
| "wsmScalable k attrs cs ((key, w) # rest) s t =
     (case attrs key of
        None \<Rightarrow> wsmScalable k attrs cs rest s t
      | Some a \<Rightarrow>
          scalable k (w * orElse (cs key) 1) \<and>
          (case roundDouble (w * orElse (cs key) 1) of
             Fin aw \<Rightarrow>
               scalable k (a * aw) \<and>
               (case roundDouble (a * aw) of
                  Fin pr \<Rightarrow>
                    scalable k (s + pr) \<and> scalable k (t + aw) \<and>
                    (case roundDouble (s + pr) of
                       Fin s' \<Rightarrow>
                         (case roundDouble (t + aw) of
                            Fin t' \<Rightarrow> wsmScalable k attrs cs rest s' t'
                          | _ \<Rightarrow> False)
                     | _ \<Rightarrow> False)
                | _ \<Rightarrow> False)
           | _ \<Rightarrow> False))"


section \<open>Example inputs\<close>

text \<open>
  The two candidates of the ranking example, with the specification's \<open>score\<close> in the
  property \<open>finalScore\<close> that the ranker reads, in a store that holds them at the
  addresses 0 and 1 and the input array \<open>[0, 1]\<close> at the array address 0.
\<close>

definition candidateOne :: candidate where
  "candidateOne =
     \<lparr>ident = 1, attributes = Map.empty, finalScore = Some 0.85,
      confidence = Some 0.9, confidenceScore = None, percentile = None, rank = None\<rparr>"

definition candidateTwo :: candidate where
  "candidateTwo =
     \<lparr>ident = 2, attributes = Map.empty, finalScore = Some 0.83,
      confidence = Some 0.95, confidenceScore = None, percentile = None, rank = None\<rparr>"

definition pairStore :: "unit store" where
  "pairStore =
     \<lparr>objs = (\<lambda>_. candidateOne)(1 := candidateTwo), nobjs = 2,
      arrs = (\<lambda>_. [])(0 := [0, 1]), narrs = 1\<rparr>"

text \<open>
  The same two candidates read literally: the score sits in a property \<open>score\<close>, kept
  in the record's extension, and \<open>finalScore\<close> is missing.
\<close>

definition literalOne :: "real candidate_scheme" where
  "literalOne =
     \<lparr>ident = 1, attributes = Map.empty, finalScore = None,
      confidence = Some 0.9, confidenceScore = None, percentile = None, rank = None,
      \<dots> = 0.85\<rparr>"

definition literalTwo :: "real candidate_scheme" where
  "literalTwo =
     \<lparr>ident = 2, attributes = Map.empty, finalScore = None,
      confidence = Some 0.95, confidenceScore = None, percentile = None, rank = None,
      \<dots> = 0.83\<rparr>"

definition literalPairStore :: "real store" where
  "literalPairStore =
     \<lparr>objs = (\<lambda>_. literalOne)(1 := literalTwo), nobjs = 2,
      arrs = (\<lambda>_. [])(0 := [0, 1]), narrs = 1\<rparr>"

definition experienced :: "real \<Rightarrow> candidate" where
  "experienced years =
     \<lparr>ident = 0, attributes = Map.empty(''yearsOfExperience'' \<mapsto> Number years),
      finalScore = None, confidence = None, confidenceScore = None,
      percentile = None, rank = None\<rparr>"

definition partialConfidence :: "string \<Rightarrow> real option" where
  "partialConfidence = Map.empty(''a'' \<mapsto> 0.8)"

definition mixedArray :: "jsval list" where
  "mixedArray = [Text ''Java'', Number 3, Flag True, Text '' java '']"

text \<open>
  The four proposals for one criterion next to a second criterion on which the four
  evaluators agree.
\<close>

definition agreedSecond :: "string \<Rightarrow> string \<Rightarrow> (string \<times> real) list list" where
  "agreedSecond criterion other =
     [[(criterion, 0.5), (other, 0.5)], [(criterion, 0.5), (other, 0.5)],
      [(criterion, 0.5), (other, 0.5)], [(criterion, 0.9), (other, 0.5)]]"

definition fourProposals :: "string \<Rightarrow> (string \<times> real) list list" where
  "fourProposals criterion =
     [[(criterion, 0.5)], [(criterion, 0.5)], [(criterion, 0.5)], [(criterion, 0.9)]]"

text \<open>
  Attribute objects for the weighted sum: two attributes of value 1; one of value 0.5 and
  one of value 1; and one of value 1 next to one of the next double above 1.
\<close>

definition unitPair :: "string \<Rightarrow> real option" where
  "unitPair = [''a'' \<mapsto> 1, ''b'' \<mapsto> 1]"

definition halfAndOne :: "string \<Rightarrow> real option" where
  "halfAndOne = [''a'' \<mapsto> 0.5, ''c'' \<mapsto> 1]"

definition nextAfterOne :: real where
  "nextAfterOne = 1 + 1 / 2 ^ 52"

definition oneAndNext :: "string \<Rightarrow> real option" where
  "oneAndNext = [''a'' \<mapsto> 1, ''b'' \<mapsto> nextAfterOne]"

section \<open>Properties of the numbers\<close>

lemma overflowThreshold_large: "2 ^ 1000 < overflowThreshold"
  by (simp add: overflowThreshold_def)

lemma underflowThreshold_small: "0 < underflowThreshold" "underflowThreshold < 1 / 2 ^ 1000"
  by (simp_all add: underflowThreshold_def)

lemma overflowed_moderate: "\<bar>r\<bar> \<le> 2 ^ 1000 \<Longrightarrow> overflowed r = Fin r"
  using overflowThreshold_large by (auto simp: overflowed_def)

lemma toDouble_zero: "toDouble 0 = Fin 0"
  using underflowThreshold_small by (simp add: toDouble_def)

lemma toDouble_moderate:
  "1 / 2 ^ 1000 \<le> \<bar>r\<bar> \<Longrightarrow> \<bar>r\<bar> \<le> 2 ^ 1000 \<Longrightarrow> toDouble r = Fin r"
  using underflowThreshold_small overflowed_moderate by (auto simp: toDouble_def)

lemma toDouble_unit:
  assumes "0 \<le> q" "q \<le> 1"
  shows "\<exists>d. toDouble q = Fin d \<and> 0 \<le> d \<and> d \<le> 1"
proof (cases "\<bar>q\<bar> \<le> underflowThreshold")
  case True
  then show ?thesis by (simp add: toDouble_def)
next
  case False
  have "\<bar>q\<bar> \<le> 2 ^ 1000" using assms by simp
  then have "toDouble q = Fin q" using False overflowed_moderate by (simp add: toDouble_def)
  then show ?thesis using assms by simp
qed

lemma toDouble_cases:
  "toDouble r = Fin 0 \<or> toDouble r = Fin r \<or> (toDouble r = PosInf \<and> 0 < r) \<or>
   (toDouble r = NegInf \<and> r < 0)"
  using overflowThreshold_large by (auto simp: toDouble_def overflowed_def)

lemma toDouble_neg: "toDouble (- r) = js_neg (toDouble r)"
  using overflowThreshold_large by (auto simp: toDouble_def overflowed_def)

lemma js_sub_Fin: "js_sub (Fin x) (Fin y) = overflowed (x - y)"
  by (simp add: js_sub_def)


subsection \<open>Rounding\<close>

lemma roundEven_int: "roundEven (real_of_int m) = m"
  by (simp add: roundEven_def)

lemma quantum_pos: "0 < quantum r"
  by (simp add: quantum_def)

lemma exponentOf_eq:
  assumes "2 powr (real_of_int i) \<le> \<bar>r\<bar>" "\<bar>r\<bar> < 2 powr (real_of_int i + 1)" "- 1022 \<le> i"
  shows "exponentOf r = i"
proof -
  have pos: "0 < \<bar>r\<bar>" using assms(1) by (smt (verit) powr_gt_zero)
  have "real_of_int i \<le> log 2 \<bar>r\<bar>"
    using assms(1) pos by (simp add: le_log_iff)
  moreover have "log 2 \<bar>r\<bar> < real_of_int i + 1"
    using assms(2) pos by (simp add: log_less_iff)
  ultimately have "\<lfloor>log 2 \<bar>r\<bar>\<rfloor> = i" by linarith
  then show ?thesis using assms(3) by (simp add: exponentOf_def)
qed

lemma exponentOf_normal:
  assumes "2 powr (- 1022) \<le> \<bar>r\<bar>"
  shows "exponentOf r = \<lfloor>log 2 \<bar>r\<bar>\<rfloor>"
proof -
  have pos: "0 < \<bar>r\<bar>" using assms by (smt (verit) powr_gt_zero)
  have "- 1022 \<le> log 2 \<bar>r\<bar>" using assms pos by (simp add: le_log_iff)
  then have "- 1022 \<le> \<lfloor>log 2 \<bar>r\<bar>\<rfloor>" by linarith
  then show ?thesis by (simp add: exponentOf_def)
qed

lemma exponentOf_scale:
  assumes "2 powr (- 1022) \<le> \<bar>r\<bar>" "2 powr (- 1022) \<le> \<bar>2 powr (real_of_int n) * r\<bar>"
  shows "exponentOf (2 powr (real_of_int n) * r) = exponentOf r + n"
proof -
  have pos: "0 < \<bar>r\<bar>" using assms(1) by (smt (verit) powr_gt_zero)
  have "log 2 \<bar>2 powr (real_of_int n) * r\<bar> = real_of_int n + log 2 \<bar>r\<bar>"
    using pos by (simp add: abs_mult log_mult)
  then have "\<lfloor>log 2 \<bar>2 powr (real_of_int n) * r\<bar>\<rfloor> = n + \<lfloor>log 2 \<bar>r\<bar>\<rfloor>"
    by simp
  then show ?thesis
    using exponentOf_normal[OF assms(1)] exponentOf_normal[OF assms(2)] by simp
qed

lemma quantum_scale:
  assumes "2 powr (- 1022) \<le> \<bar>r\<bar>" "2 powr (- 1022) \<le> \<bar>2 powr (real_of_int n) * r\<bar>"
  shows "quantum (2 powr (real_of_int n) * r) = 2 powr (real_of_int n) * quantum r"
  unfolding quantum_def exponentOf_scale[OF assms]
  by (simp add: powr_add[symmetric] algebra_simps)

lemma roundDouble_scale:
  assumes n: "2 powr (- 1022) \<le> \<bar>r\<bar>" "2 powr (- 1022) \<le> \<bar>2 powr (real_of_int n) * r\<bar>"
      and f: "roundDouble r = Fin v" "isFin (roundDouble (2 powr (real_of_int n) * r))"
  shows "roundDouble (2 powr (real_of_int n) * r) = Fin (2 powr (real_of_int n) * v)"
proof -
  let ?k = "2 powr (real_of_int n)"
  have r0: "r \<noteq> 0" using n(1) by (smt (verit) powr_gt_zero)
  have k0: "?k \<noteq> 0" "?k * r \<noteq> 0" using r0 by simp_all
  let ?w = "real_of_int (roundEven (r / quantum r)) * quantum r"
  have v: "v = ?w"
    using f(1) r0 by (simp add: roundDouble_def Let_def split: if_splits)
  have q: "(?k * r) / quantum (?k * r) = r / quantum r"
    unfolding quantum_scale[OF n] using k0 by simp
  have "real_of_int (roundEven ((?k * r) / quantum (?k * r))) * quantum (?k * r) = ?k * ?w"
    unfolding q quantum_scale[OF n] by simp
  then show ?thesis
    using f(2) k0 v by (simp add: roundDouble_def Let_def split: if_splits)
qed

lemma roundDouble_exact:
  assumes e: "2 powr (real_of_int i) \<le> \<bar>r\<bar>" "\<bar>r\<bar> < 2 powr (real_of_int i + 1)" "- 1022 \<le> i"
      and m: "r / 2 powr (real_of_int i - 52) = real_of_int m"
      and b: "\<bar>r\<bar> < overflowLimit"
  shows "roundDouble r = Fin r"
proof -
  have r0: "r \<noteq> 0" using e(1) by (smt (verit) powr_gt_zero)
  have q: "quantum r = 2 powr (real_of_int i - 52)"
    by (simp add: quantum_def exponentOf_eq[OF e])
  have "real_of_int (roundEven (r / quantum r)) * quantum r = r"
    unfolding q m roundEven_int using m by (simp add: field_simps)
  then show ?thesis using r0 b by (auto simp: roundDouble_def Let_def)
qed


lemma roundDouble_zero: "roundDouble 0 = Fin 0"
  by (simp add: roundDouble_def)

lemma roundDouble_eval:
  assumes e: "2 powr (real_of_int i) \<le> \<bar>r\<bar>" "\<bar>r\<bar> < 2 powr (real_of_int i + 1)" "- 1022 \<le> i"
      and m: "roundEven (r / 2 powr (real_of_int i - 52)) = m"
      and b: "\<bar>real_of_int m * 2 powr (real_of_int i - 52)\<bar> < overflowLimit"
  shows "roundDouble r = Fin (real_of_int m * 2 powr (real_of_int i - 52))"
proof -
  have r0: "r \<noteq> 0" using e(1) by (smt (verit) powr_gt_zero)
  have q: "quantum r = 2 powr (real_of_int i - 52)"
    by (simp add: quantum_def exponentOf_eq[OF e])
  show ?thesis using r0 b by (auto simp: roundDouble_def Let_def q m)
qed

text \<open>Doubles that are their own rounding, and three values that are not doubles.\<close>

lemma roundDouble_1: "roundDouble 1 = Fin 1"
  using roundDouble_exact[of 0 1 "2 ^ 52"]
  by (simp add: overflowLimit_def powr_minus field_simps)

lemma roundDouble_2: "roundDouble 2 = Fin 2"
  using roundDouble_exact[of 1 2 "2 ^ 52"]
  by (simp add: overflowLimit_def powr_minus field_simps)

lemma roundDouble_3: "roundDouble 3 = Fin 3"
  using roundDouble_exact[of 1 3 "3 * 2 ^ 51"]
  by (simp add: overflowLimit_def powr_minus field_simps)

lemma roundDouble_4: "roundDouble 4 = Fin 4"
  using roundDouble_exact[of 2 4 "2 ^ 52"]
  by (simp add: overflowLimit_def powr_minus field_simps)

lemma roundDouble_6: "roundDouble 6 = Fin 6"
  using roundDouble_exact[of 2 6 "3 * 2 ^ 51"]
  by (simp add: overflowLimit_def powr_minus field_simps)

lemma roundDouble_8: "roundDouble 8 = Fin 8"
  using roundDouble_exact[of 3 8 "2 ^ 52"]
  by (simp add: overflowLimit_def powr_minus field_simps)

lemma roundDouble_12: "roundDouble 12 = Fin 12"
  using roundDouble_exact[of 3 12 "3 * 2 ^ 51"]
  by (simp add: overflowLimit_def powr_minus field_simps)

lemma roundDouble_16: "roundDouble 16 = Fin 16"
  using roundDouble_exact[of 4 16 "2 ^ 52"]
  by (simp add: overflowLimit_def powr_minus field_simps)

lemma roundDouble_three_quarters: "roundDouble (3 / 4) = Fin (3 / 4)"
  using roundDouble_exact[of "- 1" "3 / 4" "3 * 2 ^ 51"]
  by (simp add: overflowLimit_def powr_minus field_simps)

lemma roundDouble_nextAfterOne: "roundDouble nextAfterOne = Fin nextAfterOne"
  using roundDouble_exact[of 0 nextAfterOne "2 ^ 52 + 1"]
  by (simp add: nextAfterOne_def overflowLimit_def powr_minus field_simps)

lemma roundDouble_six_next: "roundDouble (6 + 4 / 2 ^ 52) = Fin (6 + 4 / 2 ^ 52)"
  using roundDouble_exact[of 2 "6 + 4 / 2 ^ 52" "6 * 2 ^ 50 + 1"]
  by (simp add: overflowLimit_def powr_minus field_simps)

lemma roundDouble_tie_down: "roundDouble (1 + nextAfterOne) = Fin 2"
  using roundDouble_eval[of 1 "1 + nextAfterOne" "2 ^ 52"]
  by (simp add: nextAfterOne_def overflowLimit_def powr_minus roundEven_def Let_def field_simps)

lemma roundDouble_tie_up: "roundDouble (nextAfterOne * 3) = Fin (3 + 4 / 2 ^ 52)"
  using roundDouble_eval[of 1 "nextAfterOne * 3" "3 * 2 ^ 51 + 2"]
  by (simp add: nextAfterOne_def overflowLimit_def powr_minus roundEven_def Let_def field_simps)

lemma roundDouble_quotient: "roundDouble ((6 + 4 / 2 ^ 52) / 6) = Fin nextAfterOne"
  using roundDouble_eval[of 0 "(6 + 4 / 2 ^ 52) / 6" "2 ^ 52 + 1"]
  by (simp add: nextAfterOne_def overflowLimit_def powr_minus roundEven_def Let_def field_simps)

lemma roundDouble_largest_power: "roundDouble (2 ^ 1023) = Fin (2 ^ 1023)"
proof -
  have p: "2 powr (real_of_int 1023) = (2::real) ^ 1023"
          "2 powr (real_of_int 1023 + 1) = (2::real) ^ 1024"
          "2 powr (real_of_int 1023 - 52) = (2::real) ^ 971"
    by (simp_all only: of_int_numeral powr_numeral[symmetric] zero_le_numeral) simp_all
  have q: "(2::real) ^ 1023 / 2 ^ 971 = real_of_int (2 ^ 52)"
    by (simp add: power_diff[symmetric])
  have b: "\<bar>(2::real) ^ 1023\<bar> < 2 ^ 1024" by (simp add: power_strict_increasing)
  show ?thesis
    using roundDouble_exact[of 1023 "2 ^ 1023" "2 ^ 52"] q b
    unfolding p overflowLimit_def by simp
qed

lemma roundDouble_overflow: "roundDouble (2 ^ 1024) = PosInf"
proof -
  have e: "exponentOf (2 ^ 1024) = 1024"
    by (rule exponentOf_eq) (simp_all add: powr_add)
  have q: "quantum (2 ^ 1024) = 2 ^ 972"
    unfolding quantum_def e by simp
  have d: "(2::real) ^ 1024 / 2 ^ 972 = real_of_int (2 ^ 52)"
    by (simp add: power_diff[symmetric])
  have m: "real_of_int (2 ^ 52) * (2::real) ^ 972 = 2 ^ 1024"
    by (simp add: power_add[symmetric])
  show ?thesis
    unfolding roundDouble_def q d roundEven_int Let_def m overflowLimit_def by simp
qed

lemma normal_one: "2 powr (- 1022) \<le> (1::real)"
  by (simp add: powr_minus field_simps)

section \<open>Properties of the membership functions\<close>




lemma exp_half_range:
  "1 / 2 ^ 1000 \<le> \<bar>exp (- (1 / 2) :: real)\<bar>" "\<bar>exp (- (1 / 2) :: real)\<bar> \<le> 2 ^ 1000"
proof -
  have "(1::real) + (- (1 / 2)) \<le> exp (- (1 / 2))" by (rule exp_ge_add_one_self)
  then have "1 / 2 \<le> exp (- (1 / 2) :: real)" by simp
  moreover have "(1::real) / 2 ^ 1000 \<le> 1 / 2" by simp
  ultimately show "1 / 2 ^ 1000 \<le> \<bar>exp (- (1 / 2) :: real)\<bar>" by simp
  have "exp (- (1 / 2) :: real) \<le> 1" by simp
  moreover have "(1::real) \<le> 2 ^ 1000" by (rule one_le_power) simp
  moreover have "\<bar>exp (- (1 / 2) :: real)\<bar> = exp (- (1 / 2))" by simp
  ultimately show "\<bar>exp (- (1 / 2) :: real)\<bar> \<le> 2 ^ 1000" by linarith
qed

text \<open>
  Claim C1, as stated, fails. With \<open>a = 2 > c = 1\<close> the triangular function returns the
  degree \<open>1/3\<close> at \<open>x = 3\<close>, and the gaussian one with \<open>sigma = -1\<close> returns
  \<open>exp (-1/2)\<close>: numbers, not errors.
\<close>

theorem membership_accepts_invalid_shape:
  "(1::real) < 2 \<and> triangularMF 3 2 5 1 = Fin (1 / 3) \<and>
   (- 1 :: real) \<le> 0 \<and> gaussianMF 1 0 (- 1) = Fin (exp (- (1 / 2)))"
  using toDouble_moderate[OF exp_half_range]
  by (simp add: triangularMF_def triangularMFn_def gaussianMF_def gaussianMFn_def js_sub_Fin
        overflowed_moderate toDouble_moderate)

lemma js_pow2_neg: "js_pow2 (js_neg v) = js_pow2 v"
  by (cases v) simp_all

lemma js_div_neg_den:
  "s \<noteq> 0 \<Longrightarrow> js_div v (Fin (- s)) = js_neg (js_div v (Fin s))"
  by (cases v) (simp_all add: toDouble_neg)

lemma gaussian_abs_sigma:
  assumes "sigma < 0"
  shows "gaussianMF x mean sigma = gaussianMF x mean \<bar>sigma\<bar>"
proof -
  have "\<bar>sigma\<bar> = - sigma" using assms by simp
  then show ?thesis
    using assms by (simp add: gaussianMF_def gaussianMFn_def js_div_neg_den js_pow2_neg)
qed

lemma js_pow2_shape:
  "v \<noteq> NaN \<Longrightarrow> js_pow2 v = PosInf \<or> (\<exists>d\<ge>0. js_pow2 v = Fin d)"
proof (cases v)
  case (Fin r)
  then show ?thesis using toDouble_cases[of "r\<^sup>2"] by (auto simp: not_less)
qed simp_all

lemma half_neg_shape:
  assumes "p = PosInf \<or> (\<exists>d\<ge>0. p = Fin d)"
  shows "js_mul (Fin (- 0.5)) p = NegInf \<or> (\<exists>y\<le>0. js_mul (Fin (- 0.5)) p = Fin y)"
proof -
  from assms consider "p = PosInf" | d where "0 \<le> d" "p = Fin d" by blast
  then show ?thesis
  proof cases
    case 1
    then show ?thesis by simp
  next
    case 2
    then show ?thesis using toDouble_cases[of "- 0.5 * d"] by auto
  qed
qed

lemma js_exp_shape:
  assumes "m = NegInf \<or> (\<exists>y\<le>0. m = Fin y)"
  shows "\<exists>d. js_exp m = Fin d \<and> 0 \<le> d \<and> d \<le> 1"
proof -
  from assms consider "m = NegInf" | y where "y \<le> 0" "m = Fin y" by blast
  then show ?thesis
  proof cases
    case 1
    then show ?thesis by simp
  next
    case 2
    then show ?thesis using toDouble_unit[of "exp y"] by simp
  qed
qed

lemma js_div_not_NaN: "s \<noteq> 0 \<Longrightarrow> js_div (overflowed r) (Fin s) \<noteq> NaN"
  using toDouble_cases[of "r / s"] by (auto simp: overflowed_def)

lemma gaussian_unit:
  assumes "sigma \<noteq> 0"
  shows "\<exists>d. gaussianMF x mean sigma = Fin d \<and> 0 \<le> d \<and> d \<le> 1"
  unfolding gaussianMF_def gaussianMFn_def js_sub_Fin
  by (intro js_exp_shape half_neg_shape js_pow2_shape js_div_not_NaN assms)

text \<open>
  Claim C1, amended. The membership functions do not check their shape parameters and
  reject nothing. The triangular function with \<open>a > c\<close> returns the quotient
  \<open>(x - a) / (b - a)\<close> for \<open>a < x \<le> b\<close> and 0 elsewhere. The gaussian function with
  \<open>sigma < 0\<close> returns the value it returns for \<open>\<bar>sigma\<bar>\<close>, a degree between 0 and 1.
\<close>

theorem membership_invalid_shape_result:
  "(c < a \<longrightarrow>
      triangularMF x a b c =
        (if a < x \<and> x \<le> b then js_div (js_sub (Fin x) (Fin a)) (js_sub (Fin b) (Fin a))
         else Fin 0)) \<and>
   (sigma < 0 \<longrightarrow>
      gaussianMF x mean sigma = gaussianMF x mean \<bar>sigma\<bar> \<and>
      (\<exists>d. gaussianMF x mean sigma = Fin d \<and> 0 \<le> d \<and> d \<le> 1))"
proof (intro conjI impI)
  assume "c < a"
  then show "triangularMF x a b c =
        (if a < x \<and> x \<le> b then js_div (js_sub (Fin x) (Fin a)) (js_sub (Fin b) (Fin a))
         else Fin 0)"
    by (auto simp: triangularMF_def triangularMFn_def)
next
  assume "sigma < 0"
  then show "gaussianMF x mean sigma = gaussianMF x mean \<bar>sigma\<bar>"
    by (rule gaussian_abs_sigma)
next
  assume "sigma < 0"
  then show "\<exists>d. gaussianMF x mean sigma = Fin d \<and> 0 \<le> d \<and> d \<le> 1"
    using gaussian_unit[of sigma x mean] by simp
qed

theorem membership_invalid_shape_result_witness:
  "(1::real) < 2 \<and> triangularMF 4 2 6 1 = Fin (1 / 2) \<and>
   (- 2 :: real) < 0 \<and> gaussianMF 4 0 (- 2) = gaussianMF 4 0 2"
proof -
  have "js_div (js_sub (Fin 4) (Fin 2)) (js_sub (Fin 6) (Fin 2)) = Fin (1 / 2)"
    by (simp add: js_sub_Fin overflowed_moderate toDouble_moderate)
  then show ?thesis
    using membership_invalid_shape_result [where c = 1 and a = 2 and x = 4 and b = 6 and sigma = "- 2" and mean = 0]
    by simp
qed

text \<open>
  With \<open>sigma = 0\<close> the quotient is a division by zero: the result is 0 off the mean
  (an infinity, squared, scaled by \<open>-0.5\<close> and exponentiated) and NaN at the mean.
\<close>

lemma gaussian_zero_sigma:
  "gaussianMF x mean 0 = (if x = mean then NaN else Fin 0)"
  using overflowThreshold_large
  by (auto simp: gaussianMF_def gaussianMFn_def js_sub_Fin overflowed_def)

section \<open>Properties of the fuzzy scorer\<close>


section \<open>Properties of the weight consensus\<close>

lemma outliers_four_proposals:
  "removeFuzzyOutliers [1 / 2, 1 / 2, 1 / 2, 9 / 10] (1 / 5) = [1 / 2, 1 / 2, 1 / 2]"
  by (simp add: removeFuzzyOutliers_def calculateMedian_def Let_def)

lemma outliers_four_agreed:
  "removeFuzzyOutliers [1 / 2, 1 / 2, 1 / 2, 1 / 2] (1 / 5) = [1 / 2, 1 / 2, 1 / 2, 1 / 2]"
  by (simp add: removeFuzzyOutliers_def calculateMedian_def Let_def)

lemma aggregated_four_proposals:
  "aggregatedWeights (fourProposals c) = [(c, Fin (1 / 2))]"
  by (simp add: aggregatedWeights_def weightsByAttribute_def allCriteria_def fourProposals_def
                outliers_four_proposals toDouble_moderate Let_def)

lemma delphi_four_proposals:
  "applyDelphiTechnique (fourProposals c) = [(c, Fin 1)]"
  by (simp add: applyDelphiTechnique_def weightTotal_def aggregated_four_proposals
        overflowed_moderate toDouble_moderate Let_def)

lemma aggregated_agreed_second:
  "aggregatedWeights (agreedSecond ''experience'' ''skills'')
     = [(''experience'', Fin (1 / 2)), (''skills'', Fin (1 / 2))]"
  by (simp add: aggregatedWeights_def weightsByAttribute_def allCriteria_def agreedSecond_def
                outliers_four_proposals outliers_four_agreed toDouble_moderate Let_def)

lemma delphi_agreed_second:
  "applyDelphiTechnique (agreedSecond ''experience'' ''skills'')
     = [(''experience'', Fin (1 / 2)), (''skills'', Fin (1 / 2))]"
  by (simp add: applyDelphiTechnique_def weightTotal_def aggregated_agreed_second
        overflowed_moderate toDouble_moderate Let_def)

text \<open>
  Claim C6, as stated, fails. On the four proposals 0.5, 0.5, 0.5, 0.9 for a single
  criterion the consensus returns the weight 1 for the criterion, not 0.5.
\<close>

theorem delphi_single_criterion_weight_one:
  "map snd (applyDelphiTechnique (fourProposals ''experience'')) = [Fin 1] \<and>
   map snd (applyDelphiTechnique (fourProposals ''experience'')) \<noteq> [Fin 0.5]"
  by (simp add: delphi_four_proposals)

text \<open>
  Claim C6, amended. On the proposals 0.5, 0.5, 0.5, 0.9 for a criterion the outlier
  filter keeps the three values equal to the median and drops 0.9, and the weight
  aggregated for the criterion is 0.5. When the criterion is the only one the consensus
  returns it with the weight 1; next to a second criterion on which the four evaluators
  all propose 0.5 the consensus returns 0.5 for each. In both cases the returned weights
  sum to 1.
\<close>

theorem delphi_outlier_consensus:
  "removeFuzzyOutliers [0.5, 0.5, 0.5, 0.9] 0.2 = [0.5, 0.5, 0.5] \<and>
   aggregatedWeights (fourProposals ''experience'') = [(''experience'', Fin 0.5)] \<and>
   applyDelphiTechnique (fourProposals ''experience'') = [(''experience'', Fin 1)] \<and>
   weightTotal (applyDelphiTechnique (fourProposals ''experience'')) = Fin 1 \<and>
   applyDelphiTechnique (agreedSecond ''experience'' ''skills'')
     = [(''experience'', Fin 0.5), (''skills'', Fin 0.5)] \<and>
   weightTotal (applyDelphiTechnique (agreedSecond ''experience'' ''skills'')) = Fin 1"
  using outliers_four_proposals
  by (simp add: delphi_four_proposals delphi_agreed_second aggregated_four_proposals
        weightTotal_def overflowed_moderate)

section \<open>Properties of the hard filter\<close>






text \<open>The example of the specification: 4.4 years are excluded, 4.6 years are kept.\<close>

lemma hard_filter_years_example:
  "applyHardCriteriaFilter lt [experienced 4.4, experienced 4.6]
     [(''yearsOfExperience'', Number 5)] 0.1 = [experienced 4.6]"
  by (simp add: applyHardCriteriaFilter_def experienced_def)

section \<open>Properties of the array similarity\<close>

lemma nonneg_abs: "nonneg (js_abs v)"
  by (cases v) (simp_all add: nonneg_def)

lemma nonneg_max: "nonneg u \<Longrightarrow> nonneg v \<Longrightarrow> nonneg (js_max u v)"
  by (cases u; cases v) (auto simp: nonneg_def)

lemma nonneg_toDouble: "0 \<le> r \<Longrightarrow> nonneg (toDouble r)"
  using toDouble_cases[of r] by (auto simp: nonneg_def)

lemma nonneg_div: "nonneg u \<Longrightarrow> nonneg v \<Longrightarrow> nonneg (js_div u v)"
proof (cases u; cases v)
  fix x y assume "nonneg u" "nonneg v" "u = Fin x" "v = Fin y"
  then have "0 \<le> x" "0 \<le> y" by (simp_all add: nonneg_def)
  then have "y \<noteq> 0 \<Longrightarrow> nonneg (toDouble (x / y))" by (intro nonneg_toDouble) simp
  then show "nonneg (js_div u v)"
    using \<open>u = Fin x\<close> \<open>v = Fin y\<close> \<open>0 \<le> x\<close> by (auto simp: nonneg_def)
qed (auto simp: nonneg_def)

lemma atMostOne_sub: "nonneg v \<Longrightarrow> atMostOne (js_sub (Fin 1) v)"
  using overflowThreshold_large
  by (cases v) (auto simp: nonneg_def atMostOne_def js_sub_def overflowed_def)

lemma atMostOne_max0: "atMostOne v \<Longrightarrow> atMostOne (js_max (Fin 0) v)"
  by (cases v) (auto simp: atMostOne_def)

lemma atMostOne_not_gt: "atMostOne v \<Longrightarrow> \<not> js_gt v (Fin 1)"
  by (cases v) (auto simp: atMostOne_def)

lemma strict_eq_refl: "finiteElement v \<Longrightarrow> strict_eq v v"
proof (cases v)
  case (Num x)
  assume "finiteElement v"
  with Num show ?thesis by (cases x) simp_all
qed simp_all

lemma string_similarity_self: "calculateStringSimilarity s s = 1"
  by (simp add: calculateStringSimilarity_def Let_def)

lemma string_similarity_le_1: "calculateStringSimilarity s t \<le> 1"
  by (simp add: calculateStringSimilarity_def Let_def)

lemma number_similarity_self:
  "itemSimilarity cs (Num (Fin r)) (Num (Fin r)) = Fin 1"
  by (simp add: js_sub_Fin overflowed_moderate toDouble_zero Let_def)

lemma itemSimilarity_self:
  assumes "finiteElement v"
  shows "itemSimilarity cs v v = Fin 1"
proof (cases v)
  case (Num x)
  with assms obtain r where "x = Fin r" by (cases x) simp_all
  with Num show ?thesis using number_similarity_self by simp
qed (simp_all add: string_similarity_self)

lemma itemSimilarity_le_1: "\<not> js_gt (itemSimilarity cs u v) (Fin 1)"
proof (cases "(cs, u, v)" rule: itemSimilarity.cases)
  case (2 cs' a b)
  have "atMostOne (js_max (Fin 0)
          (js_sub (Fin 1) (js_div (js_abs (js_sub a b)) (js_max (js_abs a) (js_abs b)))))"
    by (intro atMostOne_max0 atMostOne_sub nonneg_div nonneg_max nonneg_abs)
  then show ?thesis using 2 by (simp add: Let_def atMostOne_not_gt)
qed (simp_all add: string_similarity_le_1 not_less)

lemma findBest_keeps_one:
  "\<forall>x \<in> set xs. \<not> js_gt x (Fin 1) \<Longrightarrow> findBest xs j (Some i, Fin 1) = (Some i, Fin 1)"
  by (induction xs arbitrary: j) auto

lemma findBest_leading_one:
  assumes "\<forall>x \<in> set xs. \<not> js_gt x (Fin 1)" "js_gt (Fin 1) start"
  shows "findBest (Fin 1 # xs) 0 (None, start) = (Some 0, Fin 1)"
  using assms by (simp add: findBest_keeps_one)

lemma removeMatched_first:
  assumes "\<forall>row \<in> set m. k < length row"
  shows "removeMatched 0 (map (drop k) m) = map (drop (Suc k)) m"
  using assms by (induction m) (simp_all add: removeMatched_def)

lemma greedy_diagonal:
  assumes sq: "\<forall>row \<in> set m. length row = length m"
      and diag: "\<forall>i < length m. m ! i ! i = Fin 1"
      and le1: "\<forall>row \<in> set m. \<forall>x \<in> set row. \<not> js_gt x (Fin 1)"
      and thr: "js_gt (Fin 1) (js_sub (Fin thr) (Fin 0.01))"
      and bound: "real (length m) \<le> 2 ^ 1000"
      and k: "k \<le> length m"
  shows "fold (greedyStep thr) [0..<k] (m, Fin 0, 0) = (map (drop k) m, Fin (real k), k)"
  using k
proof (induction k)
  case 0
  show ?case by simp
next
  case (Suc k)
  then have k: "k < length m"
    and IH: "fold (greedyStep thr) [0..<k] (m, Fin 0, 0) = (map (drop k) m, Fin (real k), k)"
    by simp_all
  have mk: "m ! k \<in> set m" using k by simp
  then have len: "length (m ! k) = length m" using sq by blast
  have row: "map (drop k) m ! k = Fin 1 # drop (Suc k) (m ! k)"
    using k len diag by (simp add: Cons_nth_drop_Suc[symmetric])
  have rest: "\<forall>x \<in> set (drop (Suc k) (m ! k)). \<not> js_gt x (Fin 1)"
    using le1 mk by (meson in_set_dropD)
  have best: "findBest (map (drop k) m ! k) 0 (None, js_sub (Fin thr) (Fin 0.01)) = (Some 0, Fin 1)"
    unfolding row using findBest_leading_one[OF rest thr] .
  have rm: "removeMatched 0 (map (drop k) m) = map (drop (Suc k)) m"
    using sq k by (intro removeMatched_first) simp
  have ne: "(length (map (drop k) m ! k) = 0) = False"
    unfolding row by simp
  have "real k + 1 \<le> 2 ^ 1000" using k bound by simp
  then have add: "js_add (Fin (real k)) (Fin 1) = Fin (real (Suc k))"
    by (simp add: overflowed_moderate add.commute)
  have "greedyStep thr k (map (drop k) m, Fin (real k), k)
          = (removeMatched 0 (map (drop k) m), js_add (Fin (real k)) (Fin 1), Suc k)"
    by (simp only: greedyStep_def prod.case ne if_False best option.case)
  then have "greedyStep thr k (map (drop k) m, Fin (real k), k)
          = (map (drop (Suc k)) m, Fin (real (Suc k)), Suc k)"
    by (simp only: rm add)
  then show ?case by (simp add: IH)
qed

lemma matrix_copy:
  assumes "\<forall>row \<in> set m. length row = n"
  shows "map (\<lambda>i. map (\<lambda>j. m ! i ! j) [0..<n]) [0..<length m] = m"
proof (rule nth_equalityI)
  show "length (map (\<lambda>i. map (\<lambda>j. m ! i ! j) [0..<n]) [0..<length m]) = length m" by simp
next
  fix i assume "i < length (map (\<lambda>i. map (\<lambda>j. m ! i ! j) [0..<n]) [0..<length m])"
  then have i: "i < length m" by simp
  then have "length (m ! i) = n" using assms by simp
  then have "map (\<lambda>j. m ! i ! j) [0..<n] = m ! i"
    by (metis map_nth)
  then show "map (\<lambda>i. map (\<lambda>j. m ! i ! j) [0..<n]) [0..<length m] ! i = m ! i"
    using i by simp
qed


text \<open>
  Claim C8, as stated, fails. For the array whose one element is NaN the cell of the
  matrix is NaN, no match is found, and the similarity of the array with itself is 0.
\<close>

theorem array_similarity_nan_self:
  "[Num NaN] \<noteq> [] \<and>
   calculateArraySimilarity (Array 0 [Num NaN]) (Array 0 [Num NaN]) defaultOptions = Fin 0"
  by (simp add: defaultOptions_def similarityMatrix_def greedyStep_def js_sub_def
        overflowed_moderate toDouble_zero Let_def)

text \<open>
  Claim C8, amended. For every non-empty array \<open>X\<close> (shorter than \<open>2\<^sup>3\<^sup>2\<close>, as every
  array of the language is) none of whose elements is NaN or an infinity, the similarity
  of \<open>X\<close> with itself under the default options is 1: each round of the greedy loop
  finds the diagonal cell, of value 1, at the head of its row, and removes its column.
\<close>

theorem array_similarity_self:
  assumes "X \<noteq> []" and "length X < 2 ^ 32" and "\<forall>v \<in> set X. finiteElement v"
  shows "calculateArraySimilarity (Array a X) (Array b X) defaultOptions = Fin 1"
proof -
  let ?m = "similarityMatrix False X X"
  have len: "length ?m = length X" by (simp add: similarityMatrix_def)
  have sq: "\<forall>row \<in> set ?m. length row = length ?m"
    by (auto simp: similarityMatrix_def)
  have diag: "\<forall>i < length ?m. ?m ! i ! i = Fin 1"
    using assms(3) by (simp add: similarityMatrix_def itemSimilarity_self)
  have le1: "\<forall>row \<in> set ?m. \<forall>x \<in> set row. \<not> js_gt x (Fin 1)"
    by (auto simp: similarityMatrix_def itemSimilarity_le_1)
  have copy: "map (\<lambda>i. map (\<lambda>j. ?m ! i ! j) [0..<length X]) [0..<length ?m] = ?m"
    using sq len by (intro matrix_copy) simp
  have thr: "js_gt (Fin 1) (js_sub (Fin 0.7) (Fin 0.01))"
    by (simp add: js_sub_Fin overflowed_moderate)
  have "real (length X) \<le> 2 ^ 32" using assms(2) by (metis less_imp_le of_nat_le_iff of_nat_numeral of_nat_power)
  moreover have "(2::real) ^ 32 \<le> 2 ^ 1000" by simp
  ultimately have bound: "real (length ?m) \<le> 2 ^ 1000" unfolding len by linarith
  have run: "fold (greedyStep 0.7) [0..<length ?m] (?m, Fin 0, 0)
               = (map (drop (length ?m)) ?m, Fin (real (length ?m)), length ?m)"
    by (rule greedy_diagonal[OF sq diag le1 thr bound]) simp
  have pos: "0 < length X" using assms(1) by simp
  have q: "js_div (Fin (real (length X))) (Fin (real (length X))) = Fin 1"
    using pos by (simp add: toDouble_moderate)
  have fin: "js_add (js_mul (Fin 1) (Fin (2 / 5))) (js_mul (Fin 1) (Fin (3 / 5))) = Fin 1"
    by (simp add: toDouble_moderate overflowed_moderate)
  show ?thesis
    using assms(1) pos
    by (simp add: defaultOptions_def copy[unfolded len] run[unfolded len] len q fin Let_def
             del: js_div.simps js_mul.simps js_add.simps)
qed

theorem array_similarity_self_witness:
  "mixedArray \<noteq> [] \<and> length mixedArray < 2 ^ 32 \<and>
   calculateArraySimilarity (Array 0 mixedArray) (Array 0 mixedArray) defaultOptions = Fin 1"
proof -
  have h: "mixedArray \<noteq> []" "length mixedArray < 2 ^ 32" "\<forall>v \<in> set mixedArray. finiteElement v"
    by (simp_all add: mixedArray_def)
  from array_similarity_self [OF h, of 0 0] h(1,2) show ?thesis by blast
qed

section \<open>Properties of the weighted sum model\<close>

lemma wsmStep_absent:
  "attrs key = None \<Longrightarrow> wsmStep attrs cs (key, w) acc = acc"
  by (cases acc) (simp add: wsmStep_def)

lemma wsmStep_present:
  "attrs key = Some a \<Longrightarrow>
   wsmStep attrs cs (key, w) (s, t, tc) =
     (s + a * (w * orElse (cs key) 1), t + w * orElse (cs key) 1, tc + orElse (cs key) 1)"
  by (simp add: wsmStep_def Let_def)

lemma wsm_fold_confidence:
  assumes "\<forall>k c. cs k = Some c \<longrightarrow> c \<noteq> 0"
  shows "snd (snd (fold (wsmStep attrs cs) ws (s, t, tc))) = tc + matchedConfidenceSum attrs ws cs"
  using assms
proof (induction ws arbitrary: s t tc)
  case Nil
  show ?case by (simp add: matchedConfidenceSum_def)
next
  case (Cons e ws)
  obtain key w where e: "e = (key, w)" by (cases e)
  have oe: "orElse (cs key) 1 = declaredConfidence cs key"
    using Cons.prems by (auto simp: orElse_def declaredConfidence_def split: option.splits)
  show ?case
    using Cons.IH[OF Cons.prems] oe
    by (cases "attrs key")
       (simp_all add: e wsmStep_absent wsmStep_present matchedConfidenceSum_def)
qed

text \<open>
  Claim C4, as stated, fails. With the weights \<open>a\<close> and \<open>b\<close> declared, only the
  attribute \<open>a\<close> present and no confidence supplied, every per-criterion confidence is 1.0
  and so is their mean over the declared keys, but the aggregator returns 0.5.
\<close>

theorem wsm_confidence_absent_attribute:
  "scoreResult.confidence
     (applyWSM (Map.empty(''a'' \<mapsto> 1)) [(''a'', 1), (''b'', 1)] Map.empty) = 1 / 2 \<and>
   meanDeclaredConfidence [(''a'', 1), (''b'', 1)] Map.empty = 1"
  by (simp add: applyWSM_def wsmStep_def orElse_def meanDeclaredConfidence_def
                declaredConfidence_def Let_def)

text \<open>
  Claim C4, amended. When no supplied confidence is 0, the confidence returned by the
  aggregator is the sum of the per-criterion confidences (1.0 when not supplied) over the
  declared weight keys whose attribute is present, divided by the number of all declared
  weight keys; it is 1.0 when no weight key is declared.
\<close>

theorem wsm_confidence_matched_sum:
  assumes "\<forall>k c. cs k = Some c \<longrightarrow> c \<noteq> 0"
  shows "scoreResult.confidence (applyWSM attrs ws cs)
          = (if ws = [] then 1 else matchedConfidenceSum attrs ws cs / real (length ws))"
proof -
  obtain s t tc where f: "fold (wsmStep attrs cs) ws (0, 0, 0) = (s, t, tc)"
    by (cases "fold (wsmStep attrs cs) ws (0, 0, 0)") auto
  have "tc = matchedConfidenceSum attrs ws cs"
    using wsm_fold_confidence[OF assms, of attrs ws 0 0 0] f by simp
  then show ?thesis
    by (simp add: applyWSM_def f Let_def)
qed

theorem wsm_confidence_matched_sum_witness:
  "partialConfidence ''a'' = Some 0.8 \<and>
   scoreResult.confidence
     (applyWSM (Map.empty(''a'' \<mapsto> 1, ''c'' \<mapsto> 0.5)) [(''a'', 2), (''b'', 1), (''c'', 1)]
               partialConfidence) = 3 / 5"
proof -
  have h: "\<forall>k c. partialConfidence k = Some c \<longrightarrow> c \<noteq> 0"
    by (simp add: partialConfidence_def)
  have p: "partialConfidence ''a'' = Some 0.8" "partialConfidence ''c'' = None"
    by (simp_all add: partialConfidence_def)
  have "scoreResult.confidence
     (applyWSM (Map.empty(''a'' \<mapsto> 1, ''c'' \<mapsto> 0.5)) [(''a'', 2), (''b'', 1), (''c'', 1)]
               partialConfidence) = 3 / 5"
    using wsm_confidence_matched_sum [OF h, of "Map.empty(''a'' \<mapsto> 1, ''c'' \<mapsto> 0.5)"
                 "[(''a'', 2), (''b'', 1), (''c'', 1)]"]
    by (simp add: matchedConfidenceSum_def declaredConfidence_def p)
  with p(1) show ?thesis by blast
qed

subsection \<open>Scaling the weights\<close>

lemma wsmStepD_present:
  "attrs key = Some a \<Longrightarrow>
   wsmStepD attrs cs (key, w) (s, t, tc) =
     (dbl_add s (dbl_mul (Fin a) (dbl_mul (Fin w) (Fin (orElse (cs key) 1)))),
      dbl_add t (dbl_mul (Fin w) (Fin (orElse (cs key) 1))),
      dbl_add tc (Fin (orElse (cs key) 1)))"
  by (simp add: wsmStepD_def Let_def)

lemma wsmStepD_absent:
  "attrs key = None \<Longrightarrow> wsmStepD attrs cs (key, w) acc = acc"
  by (cases acc) (simp add: wsmStepD_def)

lemma wsm_overflow_fold:
  "fold (wsmStepD unitPair Map.empty) (scaleWeights (2 ^ 1022) [(''a'', 2), (''b'', 2)])
        (Fin 0, Fin 0, Fin 0) = (PosInf, PosInf, Fin 2)"
proof -
  have a: "(2::real) ^ 1022 * 2 = 2 ^ 1023" by simp
  have b: "(2::real) ^ 1023 + 2 ^ 1023 = 2 ^ 1024" by simp
  have u: "unitPair ''a'' = Some 1" "unitPair ''b'' = Some 1"
    by (simp_all add: unitPair_def)
  have o: "orElse (Map.empty ''a'') 1 = 1" "orElse (Map.empty ''b'') 1 = 1"
    by (simp_all add: orElse_def)
  show ?thesis
    unfolding scaleWeights_def
    apply (simp only: list.map prod.case fold_simps a)
    apply (simp add: wsmStepD_present[where attrs = unitPair, OF u(1)]
                     wsmStepD_present[where attrs = unitPair, OF u(2)] o
                     roundDouble_largest_power roundDouble_overflow roundDouble_1
                     roundDouble_2 b del: power_numeral)
    done
qed

text \<open>
  Claim C7, as stated, fails on doubles. With two attributes of value 1 and the weights
  2 and 2 the score is 1. With both weights multiplied by \<open>k = 2\<^sup>1\<^sup>0\<^sup>2\<^sup>2\<close>, which gives the
  double \<open>2\<^sup>1\<^sup>0\<^sup>2\<^sup>3\<close> twice, the two sums overflow to \<open>Infinity\<close> and the score is
  \<open>Infinity / Infinity\<close>, NaN.
\<close>

theorem wsm_score_scale_overflow:
  "scoreD (applyWSMD unitPair [(''a'', 2), (''b'', 2)] Map.empty) = Fin 1 \<and>
   scoreD (applyWSMD unitPair (scaleWeights (2 ^ 1022) [(''a'', 2), (''b'', 2)]) Map.empty) = NaN"
proof -
  have u: "scoreD (applyWSMD unitPair [(''a'', 2), (''b'', 2)] Map.empty) = Fin 1"
    by (simp add: applyWSMD_def wsmStepD_def unitPair_def orElse_def Let_def
                  roundDouble_1 roundDouble_2 roundDouble_4)
  have n: "scoreD (applyWSMD unitPair (scaleWeights (2 ^ 1022) [(''a'', 2), (''b'', 2)]) Map.empty)
             = NaN"
    unfolding applyWSMD_def wsm_overflow_fold by (simp add: Let_def)
  from u n show ?thesis by (rule conjI)
qed

text \<open>
  Nor does the equation hold for every \<open>k\<close> that keeps all values far from the ends of
  the range. With the attributes 1 and \<open>1 + 2\<^sup>-\<^sup>5\<^sup>2\<close> and the weights 1 and 1 the score is 1:
  the sum \<open>2 + 2\<^sup>-\<^sup>5\<^sup>2\<close> lies half-way between two doubles and is rounded to 2. With the
  weights 3 and 3 the product \<open>3 + 3 \<sqdot> 2\<^sup>-\<^sup>5\<^sup>2\<close> is rounded up, to \<open>3 + 4 \<sqdot> 2\<^sup>-\<^sup>5\<^sup>2\<close>, and the
  score is \<open>1 + 2\<^sup>-\<^sup>5\<^sup>2\<close>.
\<close>

lemma wsm_score_scale_three:
  "scoreD (applyWSMD oneAndNext [(''a'', 1), (''b'', 1)] Map.empty) = Fin 1 \<and>
   scoreD (applyWSMD oneAndNext (scaleWeights 3 [(''a'', 1), (''b'', 1)]) Map.empty)
     = Fin nextAfterOne \<and>
   nextAfterOne \<noteq> 1"
proof -
  have a: "oneAndNext ''a'' = Some 1" "oneAndNext ''b'' = Some nextAfterOne"
    by (simp_all add: oneAndNext_def)
  have o: "orElse (Map.empty ''a'') 1 = 1" "orElse (Map.empty ''b'') 1 = 1"
    by (simp_all add: orElse_def)
  have u: "fold (wsmStepD oneAndNext Map.empty) [(''a'', 1), (''b'', 1)] (Fin 0, Fin 0, Fin 0)
             = (Fin 2, Fin 2, Fin 2)"
    by (simp add: wsmStepD_present[where attrs = oneAndNext, OF a(1)]
                  wsmStepD_present[where attrs = oneAndNext, OF a(2)] o
                  roundDouble_1 roundDouble_2 roundDouble_nextAfterOne roundDouble_tie_down)
  have s: "fold (wsmStepD oneAndNext Map.empty) (scaleWeights 3 [(''a'', 1), (''b'', 1)])
             (Fin 0, Fin 0, Fin 0) = (Fin (6 + 4 / 2 ^ 52), Fin 6, Fin 2)"
    by (simp add: scaleWeights_def
                  wsmStepD_present[where attrs = oneAndNext, OF a(1)]
                  wsmStepD_present[where attrs = oneAndNext, OF a(2)] o
                  roundDouble_1 roundDouble_2 roundDouble_3 roundDouble_6
                  roundDouble_tie_up roundDouble_six_next del: power_numeral)
  have "scoreD (applyWSMD oneAndNext [(''a'', 1), (''b'', 1)] Map.empty) = Fin 1"
    unfolding applyWSMD_def u by (simp add: Let_def roundDouble_1)
  moreover have "scoreD (applyWSMD oneAndNext (scaleWeights 3 [(''a'', 1), (''b'', 1)]) Map.empty)
                   = Fin nextAfterOne"
    unfolding applyWSMD_def s by (simp add: Let_def roundDouble_quotient del: power_numeral)
  moreover have "nextAfterOne \<noteq> 1" by (simp add: nextAfterOne_def)
  ultimately show ?thesis by simp
qed

lemma scalable_round:
  assumes "scalable (2 powr (real_of_int n)) r"
  shows "\<exists>v. roundDouble r = Fin v \<and>
              roundDouble (2 powr (real_of_int n) * r) = Fin (2 powr (real_of_int n) * v)"
proof (cases "r = 0")
  case True
  then show ?thesis by (simp add: roundDouble_zero)
next
  case False
  with assms have n: "2 powr (- 1022) \<le> \<bar>r\<bar>" "2 powr (- 1022) \<le> \<bar>2 powr (real_of_int n) * r\<bar>"
    and f: "isFin (roundDouble r)" "isFin (roundDouble (2 powr (real_of_int n) * r))"
    by (simp_all add: scalable_def)
  from f(1) obtain v where v: "roundDouble r = Fin v" by (cases "roundDouble r") simp_all
  from roundDouble_scale[OF n v f(2)] v show ?thesis by blast
qed

lemma wsm_fold_scale:
  assumes "wsmScalable (2 powr (real_of_int n)) attrs cs ws s t"
  shows "\<exists>s' t' tc'.
           fold (wsmStepD attrs cs) ws (Fin s, Fin t, tc) = (Fin s', Fin t', tc') \<and>
           fold (wsmStepD attrs cs) (scaleWeights (2 powr (real_of_int n)) ws)
                (Fin (2 powr (real_of_int n) * s), Fin (2 powr (real_of_int n) * t), tc)
             = (Fin (2 powr (real_of_int n) * s'), Fin (2 powr (real_of_int n) * t'), tc')"
  using assms
proof (induction ws arbitrary: s t tc)
  case Nil
  then show ?case by (simp add: scaleWeights_def)
next
  case (Cons e ws)
  let ?k = "2 powr (real_of_int n)"
  obtain key w where e: "e = (key, w)" by (cases e)
  show ?case
  proof (cases "attrs key")
    case None
    then have "wsmScalable ?k attrs cs ws s t" using Cons.prems by (simp add: e)
    from Cons.IH[OF this, of tc] show ?thesis
      using None by (simp add: e wsmStepD_absent scaleWeights_def)
  next
    case (Some a)
    let ?c = "orElse (cs key) 1"
    from Cons.prems Some have p1: "scalable ?k (w * ?c)" by (simp add: e)
    from scalable_round[OF p1] obtain aw where
      aw: "roundDouble (w * ?c) = Fin aw" "roundDouble (?k * (w * ?c)) = Fin (?k * aw)" by blast
    from Cons.prems Some aw(1) have p2: "scalable ?k (a * aw)" by (simp add: e)
    from scalable_round[OF p2] obtain pr where
      pr: "roundDouble (a * aw) = Fin pr" "roundDouble (?k * (a * aw)) = Fin (?k * pr)" by blast
    from Cons.prems Some aw(1) pr(1) have p3: "scalable ?k (s + pr)" "scalable ?k (t + aw)"
      by (simp_all add: e)
    from scalable_round[OF p3(1)] obtain s1 where
      s1: "roundDouble (s + pr) = Fin s1" "roundDouble (?k * (s + pr)) = Fin (?k * s1)" by blast
    from scalable_round[OF p3(2)] obtain t1 where
      t1: "roundDouble (t + aw) = Fin t1" "roundDouble (?k * (t + aw)) = Fin (?k * t1)" by blast
    from Cons.prems Some aw(1) pr(1) s1(1) t1(1)
    have rest: "wsmScalable ?k attrs cs ws s1 t1" by (simp add: e)
    have step: "wsmStepD attrs cs (key, w) (Fin s, Fin t, tc)
                  = (Fin s1, Fin t1, dbl_add tc (Fin ?c))"
      by (simp add: wsmStepD_present[where attrs = attrs, OF Some] aw(1) pr(1) s1(1) t1(1))
    have m1: "?k * w * ?c = ?k * (w * ?c)" by simp
    have m2: "a * (?k * aw) = ?k * (a * aw)" by simp
    have m3: "?k * s + ?k * pr = ?k * (s + pr)" "?k * t + ?k * aw = ?k * (t + aw)"
      by (simp_all add: algebra_simps)
    have step': "wsmStepD attrs cs (key, ?k * w) (Fin (?k * s), Fin (?k * t), tc)
                  = (Fin (?k * s1), Fin (?k * t1), dbl_add tc (Fin ?c))"
      by (simp only: wsmStepD_present[where attrs = attrs, OF Some] dbl_mul.simps dbl_add.simps
                     m1 aw(2) m2 pr(2) m3 s1(2) t1(2))
    from Cons.IH[OF rest, of "dbl_add tc (Fin ?c)"] show ?thesis
      by (simp add: e scaleWeights_def step step')
  qed
qed

lemma scalable_four:
  assumes "1 \<le> r" "roundDouble r = Fin r" "roundDouble (4 * r) = Fin (4 * r)"
  shows "scalable (2 powr (real_of_int 2)) r"
proof -
  have "2 powr (- 1022) \<le> \<bar>r\<bar>" using normal_one assms(1) by linarith
  moreover have "2 powr (- 1022) \<le> \<bar>4 * r\<bar>" using normal_one assms(1) by linarith
  ultimately show ?thesis using assms(2,3) by (simp add: scalable_def)
qed

text \<open>
  Claim C7, amended. For every attribute map, weight object and confidence map and
  every power of two \<open>k = 2\<^sup>n\<close>, \<open>n\<close> an integer: if every intermediate value of the run (each
  adjusted weight, each product with an attribute and each partial sum of the score and
  of the total weight) is 0 or is, like its \<open>k\<close>-fold, at least \<open>2\<^sup>-\<^sup>1\<^sup>0\<^sup>2\<^sup>2\<close> in magnitude and
  rounded to a finite double, then the score of the aggregator on the weights all
  multiplied by \<open>k\<close> is its score on the original weights, every operation rounded as
  doubles are.
\<close>

theorem wsm_score_scale_power_of_two:
  assumes "wsmScalable (2 powr (real_of_int n)) attrs cs ws 0 0"
  shows "scoreD (applyWSMD attrs (scaleWeights (2 powr (real_of_int n)) ws) cs)
           = scoreD (applyWSMD attrs ws cs)"
proof -
  let ?k = "2 powr (real_of_int n)"
  from wsm_fold_scale[OF assms, of "Fin 0"] obtain s' t' tc' where
    f: "fold (wsmStepD attrs cs) ws (Fin 0, Fin 0, Fin 0) = (Fin s', Fin t', tc')"
    and g: "fold (wsmStepD attrs cs) (scaleWeights ?k ws) (Fin 0, Fin 0, Fin 0)
              = (Fin (?k * s'), Fin (?k * t'), tc')"
    by auto
  have "(0 < ?k * t') = (0 < t')" by (simp add: zero_less_mult_iff)
  then show ?thesis
    by (simp add: applyWSMD_def f g Let_def)
qed

theorem wsm_score_scale_power_of_two_witness:
  "wsmScalable (2 powr (real_of_int 2)) halfAndOne Map.empty
      [(''a'', 2), (''b'', 1), (''c'', 2)] 0 0 \<and>
   scoreD (applyWSMD halfAndOne
      (scaleWeights (2 powr (real_of_int 2)) [(''a'', 2), (''b'', 1), (''c'', 2)]) Map.empty)
     = scoreD (applyWSMD halfAndOne [(''a'', 2), (''b'', 1), (''c'', 2)] Map.empty) \<and>
   scoreD (applyWSMD halfAndOne [(''a'', 2), (''b'', 1), (''c'', 2)] Map.empty) = Fin (3 / 4)"
proof -
  have s1: "scalable (2 powr (real_of_int 2)) 1"
    using scalable_four[of 1] by (simp add: roundDouble_1 roundDouble_4)
  have s2: "scalable (2 powr (real_of_int 2)) 2"
    using scalable_four[of 2] by (simp add: roundDouble_2 roundDouble_8)
  have s3: "scalable (2 powr (real_of_int 2)) 3"
    using scalable_four[of 3] by (simp add: roundDouble_3 roundDouble_12)
  have s4: "scalable (2 powr (real_of_int 2)) 4"
    using scalable_four[of 4] by (simp add: roundDouble_4 roundDouble_16)
  have h: "wsmScalable (2 powr (real_of_int 2)) halfAndOne Map.empty
      [(''a'', 2), (''b'', 1), (''c'', 2)] 0 0"
    using s1 s2 s3 s4
    by (simp add: halfAndOne_def orElse_def roundDouble_1 roundDouble_2 roundDouble_3
                  roundDouble_4)
  have v: "scoreD (applyWSMD halfAndOne [(''a'', 2), (''b'', 1), (''c'', 2)] Map.empty) = Fin (3 / 4)"
    by (simp add: applyWSMD_def wsmStepD_def halfAndOne_def orElse_def Let_def
                  roundDouble_1 roundDouble_2 roundDouble_3 roundDouble_4
                  roundDouble_three_quarters)
  from wsm_score_scale_power_of_two[OF h] h v show ?thesis by simp
qed

section \<open>Properties of the ranker\<close>

lemma ranked_pair:
  "map ident (rankedList pairStore 0) = [2, 1] \<and>
   map percentile (rankedList pairStore 0) = [Some 100, Some 50] \<and>
   map rank (rankedList pairStore 0) = [Some 1, Some 2]"
  by (simp add: rankedList_def rankCandidates_def pairStore_def candidateOne_def
        candidateTwo_def allocObj_def allocArr_def copyCandidate_def sortBy_def
        compareCandidates_def toNumber_def orElse_def js_sub_Fin overflowed_moderate Let_def)

lemma ranked_literal_pair:
  "map ident (rankedList literalPairStore 0) = [2, 1] \<and>
   map finalScore (rankedList literalPairStore 0) = [Some 0, Some 0] \<and>
   map percentile (rankedList literalPairStore 0) = [Some 100, Some 50] \<and>
   map rank (rankedList literalPairStore 0) = [Some 1, Some 2]"
  by (simp add: rankedList_def rankCandidates_def literalPairStore_def literalOne_def
        literalTwo_def allocObj_def allocArr_def copyCandidate_def sortBy_def
        compareCandidates_def toNumber_def orElse_def js_sub_Fin overflowed_moderate Let_def)

text \<open>
  Claim C2, as stated, fails in its last part: the percentiles of the two ranked entries
  are not 100 and 0.
\<close>

theorem rank_pair_percentile_not_zero:
  "map percentile (rankedList pairStore 0) \<noteq> [Some 100, Some 0] \<and>
   map percentile (rankedList literalPairStore 0) \<noteq> [Some 100, Some 0]"
  using ranked_pair ranked_literal_pair by simp

text \<open>
  Claim C2, amended. Ranking the two candidates with scores 0.85 and 0.83 and
  confidences 0.9 and 0.95 places the candidate 2 first (the scores differ by less than
  0.05 and its confidence is higher), with rank 1 and percentile 100, and the candidate 1
  second, with rank 2 and percentile \<open>100 * (1 - 1/2) = 50\<close>. The order and the
  percentiles are the same when the scores sit in a property \<open>score\<close> that the ranker
  does not read: both \<open>finalScore\<close> are then 0.
\<close>

theorem rank_pair_example:
  "map ident (rankedList pairStore 0) = [2, 1] \<and>
   map percentile (rankedList pairStore 0) = [Some 100, Some (100 * (1 - 1 / 2))] \<and>
   map percentile (rankedList pairStore 0) = [Some 100, Some 50] \<and>
   map rank (rankedList pairStore 0) = [Some 1, Some 2] \<and>
   map ident (rankedList literalPairStore 0) = [2, 1] \<and>
   map percentile (rankedList literalPairStore 0) = [Some 100, Some 50]"
  using ranked_pair ranked_literal_pair by simp

lemma mset_insertBy: "mset (insertBy cmp x ys) = add_mset x (mset ys)"
  by (induction ys) simp_all

lemma mset_sortBy: "mset (sortBy cmp xs) = mset xs"
  by (induction xs) (simp_all add: sortBy_def mset_insertBy)

lemma mapCopy_shape:
  "mapCopy s cs = (s', as) \<Longrightarrow>
     length as = length cs \<and> distinct as \<and> (\<forall>x \<in> set as. nobjs s \<le> x) \<and>
     arrs s' = arrs s \<and> narrs s' = narrs s"
proof (induction cs arbitrary: s s' as)
  case Nil
  then show ?case by simp
next
  case (Cons c cs)
  obtain s1 a where al: "allocObj s (copyCandidate (objs s c)) = (s1, a)"
    by (cases "allocObj s (copyCandidate (objs s c))")
  obtain s2 bs where mc: "mapCopy s1 cs = (s2, bs)" by (cases "mapCopy s1 cs")
  from al have s1: "a = nobjs s" "nobjs s1 = Suc (nobjs s)" "arrs s1 = arrs s" "narrs s1 = narrs s"
    by (auto simp: allocObj_def)
  from Cons.prems al mc have r: "s' = s2" "as = a # bs" by simp_all
  from Cons.IH[OF mc] show ?case
    using s1 r by auto
qed

lemma mapCopy_frame:
  "mapCopy s cs = (s', as) \<Longrightarrow> x < nobjs s \<Longrightarrow> objs s' x = objs s x"
proof (induction cs arbitrary: s s' as)
  case Nil
  then show ?case by simp
next
  case (Cons c cs)
  obtain s1 a where al: "allocObj s (copyCandidate (objs s c)) = (s1, a)"
    by (cases "allocObj s (copyCandidate (objs s c))")
  obtain s2 bs where mc: "mapCopy s1 cs = (s2, bs)" by (cases "mapCopy s1 cs")
  from al have s1: "nobjs s1 = Suc (nobjs s)" "objs s1 x = objs s x"
    using Cons.prems(2) by (auto simp: allocObj_def)
  from Cons.prems al mc have r: "s' = s2" by simp
  from Cons.IH[OF mc] show ?case
    using s1 r Cons.prems(2) by simp
qed

lemma mapCopy_copies:
  "mapCopy s cs = (s', as) \<Longrightarrow> \<forall>c \<in> set cs. c < nobjs s \<Longrightarrow>
     map (objs s') as = map (\<lambda>c. copyCandidate (objs s c)) cs"
proof (induction cs arbitrary: s s' as)
  case Nil
  then show ?case by simp
next
  case (Cons c cs)
  obtain s1 a where al: "allocObj s (copyCandidate (objs s c)) = (s1, a)"
    by (cases "allocObj s (copyCandidate (objs s c))")
  obtain s2 bs where mc: "mapCopy s1 cs = (s2, bs)" by (cases "mapCopy s1 cs")
  from al have s1: "a = nobjs s" "nobjs s1 = Suc (nobjs s)"
      "objs s1 (nobjs s) = copyCandidate (objs s c)"
      "\<And>x. x < nobjs s \<Longrightarrow> objs s1 x = objs s x"
    by (auto simp: allocObj_def)
  from Cons.prems al mc have r: "s' = s2" "as = a # bs" by simp_all
  have "\<forall>c \<in> set cs. c < nobjs s1" using Cons.prems(2) s1(2) by auto
  from Cons.IH[OF mc this]
  have tl: "map (objs s2) bs = map (\<lambda>c. copyCandidate (objs s c)) cs"
    using Cons.prems(2) s1(4) by (simp cong: map_cong)
  have hd: "objs s2 a = copyCandidate (objs s c)"
    using mapCopy_frame[OF mc, of "nobjs s"] s1 by simp
  show ?case using r tl hd by simp
qed

lemma annotate_frame:
  "arrs (annotate s as i n) = arrs s \<and> narrs (annotate s as i n) = narrs s \<and>
   nobjs (annotate s as i n) = nobjs s"
  by (induction as arbitrary: s i) simp_all

lemma annotate_other:
  "x \<notin> set as \<Longrightarrow> objs (annotate s as i n) x = objs s x"
  by (induction as arbitrary: s i) auto

lemma annotate_unranked:
  "unranked (objs (annotate s as i n) x) = unranked (objs s x)"
  by (induction as arbitrary: s i) (simp_all add: unranked_def)

lemma carried_copy: "carried (unranked (copyCandidate c)) = carried c"
  by (simp add: carried_def unranked_def copyCandidate_def)

lemma carried_unranked: "carried (unranked c) = carried c"
  by (simp add: carried_def unranked_def)

text \<open>
  Claim C10. On a store without dangling references, \<open>rankCandidates\<close> returns a new
  array \<open>r\<close> of the length of the input array, holding distinct, newly allocated objects.
  Up to \<open>percentile\<close> and \<open>rank\<close> these objects are, as a multiset, the copies that
  the \<open>map\<close> callback makes of the input candidates, so the properties they carry
  over are a permutation of those of the input. Every object and every array that
  existed before the call, the input array among them, is unchanged.
\<close>

theorem rank_permutation_no_mutation:
  assumes wf: "\<forall>c \<in> set (arrs s a). c < nobjs s" and a: "a < narrs s"
  shows "case rankCandidates s a of (s', r) \<Rightarrow>
           length (arrs s' r) = length (arrs s a) \<and>
           mset (map (\<lambda>x. unranked (objs s' x)) (arrs s' r))
             = mset (map (\<lambda>c. unranked (copyCandidate (objs s c))) (arrs s a)) \<and>
           mset (map (\<lambda>x. carried (objs s' x)) (arrs s' r))
             = mset (map (\<lambda>c. carried (objs s c)) (arrs s a)) \<and>
           r \<noteq> a \<and> distinct (arrs s' r) \<and> (\<forall>x \<in> set (arrs s' r). nobjs s \<le> x) \<and>
           (\<forall>x < nobjs s. objs s' x = objs s x) \<and>
           (\<forall>x < narrs s. arrs s' x = arrs s x)"
proof -
  obtain s1 copies where mc: "mapCopy s (arrs s a) = (s1, copies)"
    by (cases "mapCopy s (arrs s a)")
  define r where "r = narrs s1"
  define s2 where "s2 = s1\<lparr>arrs := (arrs s1)(r := copies), narrs := Suc r\<rparr>"
  define sorted where
    "sorted = sortBy (\<lambda>x y. compareCandidates (objs s2 x) (objs s2 y)) (arrs s2 r)"
  define s3 where "s3 = s2\<lparr>arrs := (arrs s2)(r := sorted)\<rparr>"
  define s4 where "s4 = annotate s3 (arrs s3 r) 0 (length (arrs s3 r))"
  have al: "allocArr s1 copies = (s2, r)"
    by (simp add: allocArr_def s2_def r_def)
  have rc: "rankCandidates s a = (s4, r)"
    by (simp add: rankCandidates_def mc al s3_def s4_def sorted_def Let_def)
  from mapCopy_shape[OF mc]
  have sh: "length copies = length (arrs s a)" "distinct copies"
      "\<forall>x \<in> set copies. nobjs s \<le> x" "arrs s1 = arrs s" "r = narrs s"
    by (simp_all add: r_def)
  have s2: "arrs s2 r = copies" "objs s2 = objs s1"
    by (simp_all add: s2_def)
  have s3: "arrs s3 = (arrs s)(r := sorted)" "objs s3 = objs s1"
    by (simp_all add: s3_def s2_def sh(4))
  have ms: "mset sorted = mset copies"
    unfolding sorted_def s2(1) by (rule mset_sortBy)
  then have st: "set sorted = set copies" by (rule mset_eq_setD)
  have arr: "arrs s4 = (arrs s)(r := sorted)"
    unfolding s4_def using annotate_frame[of s3] by (simp add: s3(1))
  have len: "length sorted = length (arrs s a)"
    using ms sh(1) by (metis size_mset)
  have dist: "distinct sorted"
    using ms sh(2) by (metis mset_eq_imp_distinct_iff)
  have fresh: "\<forall>x \<in> set sorted. nobjs s \<le> x"
    using st sh(3) by simp
  have objs_old: "\<forall>x < nobjs s. objs s4 x = objs s x"
  proof (intro allI impI)
    fix x assume x: "x < nobjs s"
    then have "x \<notin> set (arrs s3 r)" using fresh by (auto simp: s3(1))
    then have "objs s4 x = objs s3 x" unfolding s4_def by (rule annotate_other)
    then show "objs s4 x = objs s x" using mapCopy_frame[OF mc x] by (simp add: s3(2))
  qed
  have "map (\<lambda>x. unranked (objs s4 x)) sorted = map (\<lambda>x. unranked (objs s1 x)) sorted"
    unfolding s4_def by (simp add: annotate_unranked s3(2))
  then have "mset (map (\<lambda>x. unranked (objs s4 x)) sorted)
               = image_mset (\<lambda>x. unranked (objs s1 x)) (mset copies)"
    using ms by (metis mset_map)
  also have "\<dots> = mset (map unranked (map (objs s1) copies))"
    by (simp add: comp_def)
  also have "\<dots> = mset (map (\<lambda>c. unranked (copyCandidate (objs s c))) (arrs s a))"
    using mapCopy_copies[OF mc wf] by (simp add: comp_def)
  finally have perm: "mset (map (\<lambda>x. unranked (objs s4 x)) sorted)
               = mset (map (\<lambda>c. unranked (copyCandidate (objs s c))) (arrs s a))" .
  have e1: "(\<lambda>x. carried (unranked (objs s4 x))) = (\<lambda>x. carried (objs s4 x))"
    by (simp add: carried_unranked)
  have e2: "(\<lambda>c. carried (unranked (copyCandidate (objs s c)))) = (\<lambda>c. carried (objs s c))"
    by (simp add: carried_copy)
  have "mset (map carried (map (\<lambda>x. unranked (objs s4 x)) sorted))
          = mset (map carried (map (\<lambda>c. unranked (copyCandidate (objs s c))) (arrs s a)))"
    using perm by (metis mset_map)
  then have perm': "mset (map (\<lambda>x. carried (objs s4 x)) sorted)
                      = mset (map (\<lambda>c. carried (objs s c)) (arrs s a))"
    by (simp only: map_map comp_def e1 e2)
  show ?thesis
    unfolding rc using len perm perm' a dist fresh objs_old sh(5) by (simp add: arr)
qed

theorem rank_permutation_no_mutation_witness:
  "length (arrs (fst (rankCandidates pairStore 0)) (snd (rankCandidates pairStore 0))) = 2 \<and>
   mset (map (\<lambda>x. carried (objs (fst (rankCandidates pairStore 0)) x))
             (arrs (fst (rankCandidates pairStore 0)) (snd (rankCandidates pairStore 0))))
     = {#carried candidateOne, carried candidateTwo#} \<and>
   snd (rankCandidates pairStore 0) \<noteq> 0 \<and>
   objs (fst (rankCandidates pairStore 0)) 0 = candidateOne \<and>
   objs (fst (rankCandidates pairStore 0)) 1 = candidateTwo \<and>
   arrs (fst (rankCandidates pairStore 0)) 0 = [0, 1]"
proof -
  have wf: "\<forall>c \<in> set (arrs pairStore 0). c < nobjs pairStore"
    by (simp add: pairStore_def)
  have a: "0 < narrs pairStore" by (simp add: pairStore_def)
  have p: "arrs pairStore 0 = [0, 1]" "nobjs pairStore = 2" "narrs pairStore = 1"
          "objs pairStore 0 = candidateOne" "objs pairStore (Suc 0) = candidateTwo"
    by (simp_all add: pairStore_def)
  have two: "(0::nat) < 2" "Suc 0 < 2" by simp_all
  from rank_permutation_no_mutation [OF wf a] show ?thesis
    using two by (auto simp: case_prod_unfold p)
qed

end
